theory Spec2Isabelle
  imports Main "HOL-Library.Word" "HOL-Library.Signed_Division"
    "HOL-Library.List_Lexorder" "HOL-Library.Char_ord"
begin

section \<open>Opcodes and operations (src/compiler/operation)\<close>

type_synonym byte = "8 word"

type_synonym Instruction = "byte list"

text \<open>
  Go declares \<^verbatim>\<open>type Opcode byte\<close> and one named constant per operation. The file that
  declares the constants is not part of the sources at hand, so their numeric values are
  not known. The names are a datatype here, and every function that mentions a constant
  receives the numbering \<open>opc\<close> (name to byte) as a parameter. The constructors carry
  the prefix \<open>Op\<close> because \<open>True\<close>, \<open>False\<close>, \<open>Null\<close>, \<open>Array\<close>, \<open>Hash\<close> and
  \<open>Closure\<close> are needed elsewhere.
\<close>

datatype Opcode =
    OpConstant | OpPop | OpAdd | OpSub | OpMul | OpDiv
  | OpTrue | OpFalse | OpNull
  | OpEqual | OpNotEqual | OpGreaterThan
  | OpBang | OpMinus
  | OpJump | OpJumpNotTruthy
  | OpSetGlobal | OpGetGlobal | OpSetLocal | OpGetLocal
  | OpGetBuiltin | OpGetFree
  | OpArray | OpHash | OpIndex
  | OpCall | OpReturnValue | OpReturn | OpClosure

text \<open>
  Modelled from the spec: the declaration of the Opcode constants is missing. This is one
  numbering, in the order of the opcode table of section 4.1, counting from 0. It is used
  only to evaluate the definitions on concrete inputs; the general theorems hold for
  every numbering without repetitions.
\<close>

fun iota :: "Opcode \<Rightarrow> byte" where
  "iota OpConstant = 0"
| "iota OpPop = 1"
| "iota OpAdd = 2"
| "iota OpSub = 3"
| "iota OpMul = 4"
| "iota OpDiv = 5"
| "iota OpTrue = 6"
| "iota OpFalse = 7"
| "iota OpNull = 8"
| "iota OpEqual = 9"
| "iota OpNotEqual = 10"
| "iota OpGreaterThan = 11"
| "iota OpBang = 12"
| "iota OpMinus = 13"
| "iota OpJump = 14"
| "iota OpJumpNotTruthy = 15"
| "iota OpSetGlobal = 16"
| "iota OpGetGlobal = 17"
| "iota OpSetLocal = 18"
| "iota OpGetLocal = 19"
| "iota OpGetBuiltin = 20"
| "iota OpGetFree = 21"
| "iota OpArray = 22"
| "iota OpHash = 23"
| "iota OpIndex = 24"
| "iota OpCall = 25"
| "iota OpReturnValue = 26"
| "iota OpReturn = 27"
| "iota OpClosure = 28"

text \<open>
  Errors. \<^verbatim>\<open>fmt.Errorf(format, args...)\<close> is kept as the call it is: the format
  string and the arguments. \<open>StackOverflow\<close> is the error of \<^verbatim>\<open>Stack.push\<close>, whose text
  is not visible. A Go run-time panic (index out of range, nil dereference, integer
  division by zero) is the result \<open>Panic\<close>: it is not an error value that a caller of
  \<^verbatim>\<open>Run\<close> receives.
\<close>

datatype DataType =
    INTEGER_TYPE | BOOLEAN_TYPE | STRING_TYPE | NULL_TYPE | ARRAY_TYPE | HASH_TYPE
  | FUNCTION_TYPE | BUILTIN_TYPE | CLOSURE_TYPE

datatype arg = ArgInt int | ArgType DataType | ArgStr string

datatype error = Errorf string "arg list" | StackOverflow

datatype 'a result = Ok 'a | Err error | Panic

definition andThen :: "'a result \<Rightarrow> ('a \<Rightarrow> 'b result) \<Rightarrow> 'b result" where
  "andThen r f = (case r of Ok x \<Rightarrow> f x | Err e \<Rightarrow> Err e | Panic \<Rightarrow> Panic)"

record Operation =
  Name :: string
  OperandSizes :: "int list"

text \<open>
  The map \<^verbatim>\<open>operations\<close> as the association list of its literal; the keys of a Go map
  literal are distinct constants.
\<close>

definition operations :: "(Opcode \<Rightarrow> byte) \<Rightarrow> (byte \<times> Operation) list" where
  "operations opc =
     [(opc OpConstant, \<lparr>Name = ''Constant'', OperandSizes = [2]\<rparr>),
      (opc OpAdd, \<lparr>Name = ''Add'', OperandSizes = []\<rparr>)]"

definition Lookup :: "(Opcode \<Rightarrow> byte) \<Rightarrow> byte \<Rightarrow> Operation result" where
  "Lookup opc val =
     (case map_of (operations opc) val of
        None \<Rightarrow> Err (Errorf ''Undefined Opcode: %d'' [ArgInt (uint val)])
      | Some operation \<Rightarrow> Ok operation)"

text \<open>
  Modelled from the spec: \<^verbatim>\<open>ReadUint16\<close> and \<^verbatim>\<open>ReadUint8\<close> are missing; operands are
  big-endian (section 4.1). Reading past the end of a Go slice panics.
\<close>

definition ReadUint16 :: "Instruction \<Rightarrow> int result" where
  "ReadUint16 ins =
     (case ins of
        hi # lo # _ \<Rightarrow> Ok (uint hi * 256 + uint lo)
      | _ \<Rightarrow> Panic)"

definition ReadUint8 :: "Instruction \<Rightarrow> int result" where
  "ReadUint8 ins = (case ins of b # _ \<Rightarrow> Ok (uint b) | _ \<Rightarrow> Panic)"

section \<open>Values (package data)\<close>

record CompiledFunction =
  Instructions :: Instruction
  LocalCount :: int
  ParamCount :: int

text \<open>
  Modelled from the spec: package \<^verbatim>\<open>data\<close> is missing. The constructors are the variants
  of section 3; the fields of Integer, Boolean, String and CompiledFunction are the ones
  the sources use. A slot of a Go slice of \<^verbatim>\<open>data.Data\<close> that was never written holds
  the nil interface: slots are \<open>Data option\<close>, nil is \<open>None\<close>.
\<close>

datatype Data =
    Integer "64 word"
  | Boolean bool
  | String string
  | Null
  | Array "Data list"
  | Hash "(Data \<times> Data) list"
  | Function CompiledFunction
  | Builtin nat
  | Closure CompiledFunction "Data list"

fun Type :: "Data \<Rightarrow> DataType" where
  "Type (Integer _) = INTEGER_TYPE"
| "Type (Boolean _) = BOOLEAN_TYPE"
| "Type (String _) = STRING_TYPE"
| "Type Null = NULL_TYPE"
| "Type (Array _) = ARRAY_TYPE"
| "Type (Hash _) = HASH_TYPE"
| "Type (Function _) = FUNCTION_TYPE"
| "Type (Builtin _) = BUILTIN_TYPE"
| "Type (Closure _ _) = CLOSURE_TYPE"

section \<open>The virtual machine (src/compiler/vm/vm.go)\<close>

definition GlobalsLimit :: nat where "GlobalsLimit = 65536"
definition StackLimit :: nat where "StackLimit = 2048"
definition FrameLimit :: nat where "FrameLimit = 1024"

text \<open>
  Modelled from the spec: the types Stack, Frame and Frames are missing. Section 3 and the
  stack protocol of section 4.4: the stack pointer points one past the top; \<open>push\<close>
  fails with stack overflow at capacity; \<open>pop\<close> returns the top and decrements, the
  slot is not cleared; \<open>top\<close> reads the slot below the pointer; \<open>popped\<close> reads
  the value last removed by \<open>pop\<close>, which is in the slot at the pointer. An index
  outside the slice panics.
\<close>

record Stack =
  items :: "Data option list"
  sp :: int

definition NewStack :: "nat \<Rightarrow> Stack" where
  "NewStack limit = \<lparr>items = replicate limit None, sp = 0\<rparr>"

definition push :: "Stack \<Rightarrow> Data option \<Rightarrow> Stack result" where
  "push s d =
     (if sp s \<ge> int (length (items s)) then Err StackOverflow
      else if sp s < 0 then Panic
      else Ok (s\<lparr>items := (items s)[nat (sp s) := d], sp := sp s + 1\<rparr>))"

definition pop :: "Stack \<Rightarrow> (Data option \<times> Stack) result" where
  "pop s =
     (if sp s - 1 < 0 \<or> sp s - 1 \<ge> int (length (items s)) then Panic
      else Ok (items s ! nat (sp s - 1), s\<lparr>sp := sp s - 1\<rparr>))"

definition top :: "Stack \<Rightarrow> Data option result" where
  "top s =
     (if sp s - 1 < 0 \<or> sp s - 1 \<ge> int (length (items s)) then Panic
      else Ok (items s ! nat (sp s - 1)))"

definition popped :: "Stack \<Rightarrow> Data option result" where
  "popped s =
     (if sp s < 0 \<or> sp s \<ge> int (length (items s)) then Panic
      else Ok (items s ! nat (sp s)))"

text \<open>
  A frame: the function, the instruction pointer and the frame pointer. The main loop
  increments the instruction pointer before it reads an opcode, so a new frame starts
  at \<open>-1\<close>.
\<close>

record Frame =
  fn :: CompiledFunction
  pointer :: int
  framePointer :: int

definition NewFrame :: "CompiledFunction \<Rightarrow> int \<Rightarrow> Frame" where
  "NewFrame f fp = \<lparr>fn = f, pointer = - 1, framePointer = fp\<rparr>"

text \<open>
  The frame stack, current frame first. What \<open>push\<close> does at capacity is not visible
  and the call site in \<^verbatim>\<open>Run\<close> discards any result; the model makes it a panic.
\<close>

record Frames =
  flist :: "Frame list"
  flimit :: nat

definition NewFrames :: "nat \<Rightarrow> Frames" where
  "NewFrames limit = \<lparr>flist = [], flimit = limit\<rparr>"

definition fpush :: "Frames \<Rightarrow> Frame \<Rightarrow> Frames result" where
  "fpush fs f =
     (if length (flist fs) \<ge> flimit fs then Panic
      else Ok (fs\<lparr>flist := f # flist fs\<rparr>))"

definition fpop :: "Frames \<Rightarrow> (Frame \<times> Frames) result" where
  "fpop fs =
     (case flist fs of [] \<Rightarrow> Panic | f # rest \<Rightarrow> Ok (f, fs\<lparr>flist := rest\<rparr>))"

definition current :: "Frames \<Rightarrow> Frame result" where
  "current fs = (case flist fs of [] \<Rightarrow> Panic | f # _ \<Rightarrow> Ok f)"

record Bytecode =
  bInstructions :: Instruction
  bConstants :: "Data list"

record VM =
  constants :: "Data list"
  globals :: "Data option list"
  stack :: Stack
  frames :: Frames

text \<open>
  \<^verbatim>\<open>New\<close>: the main function has the instructions of the bytecode and the zero values
  of Go for its counts; its frame is the one frame of the new frame stack.
\<close>

definition New :: "Bytecode \<Rightarrow> VM" where
  "New bytecode =
     (let mainFn = \<lparr>Instructions = bInstructions bytecode, LocalCount = 0, ParamCount = 0\<rparr>;
          mainFrame = NewFrame mainFn 0
      in \<lparr>constants = bConstants bytecode,
          globals = replicate GlobalsLimit None,
          stack = NewStack StackLimit,
          frames = \<lparr>flist = [mainFrame], flimit = FrameLimit\<rparr>\<rparr>)"

definition NewWithGlobals :: "Bytecode \<Rightarrow> Data option list \<Rightarrow> VM" where
  "NewWithGlobals bytecode gs = (New bytecode)\<lparr>globals := gs\<rparr>"

definition Result :: "VM \<Rightarrow> Data option result" where
  "Result vm = popped (stack vm)"

fun isTruthy :: "Data option \<Rightarrow> bool" where
  "isTruthy (Some (Boolean v)) = v"
| "isTruthy (Some Null) = False"
| "isTruthy _ = True"


text \<open>Helpers of the model: effects on the stack and on the current frame of a VM.\<close>

definition pushVM :: "VM \<Rightarrow> Data option \<Rightarrow> VM result" where
  "pushVM vm d = andThen (push (stack vm) d) (\<lambda>s. Ok (vm\<lparr>stack := s\<rparr>))"

definition popVM :: "VM \<Rightarrow> (Data option \<times> VM) result" where
  "popVM vm = andThen (pop (stack vm)) (\<lambda>(d, s). Ok (d, vm\<lparr>stack := s\<rparr>))"

text \<open>
  \<^verbatim>\<open>vm.frames.current().pointer = p\<close>. Within one iteration of the main loop every
  such assignment comes before any \<^verbatim>\<open>frames.pop()\<close>, and the iteration starts with a
  current frame, so the empty case is never reached.
\<close>

definition setPointer :: "VM \<Rightarrow> int \<Rightarrow> VM" where
  "setPointer vm p =
     (case flist (frames vm) of
        [] \<Rightarrow> vm
      | f # rest \<Rightarrow> vm\<lparr>frames := (frames vm)\<lparr>flist := f\<lparr>pointer := p\<rparr> # rest\<rparr>\<rparr>)"

definition addPointer :: "VM \<Rightarrow> int \<Rightarrow> VM" where
  "addPointer vm n =
     (case flist (frames vm) of
        [] \<Rightarrow> vm
      | f # rest \<Rightarrow> setPointer vm (pointer f + n))"

definition setSp :: "VM \<Rightarrow> int \<Rightarrow> VM" where
  "setSp vm p = vm\<lparr>stack := (stack vm)\<lparr>sp := p\<rparr>\<rparr>"

text \<open>
  The methods \<^verbatim>\<open>executeBangOp\<close>, \<^verbatim>\<open>executeMinusOp\<close>, \<^verbatim>\<open>executeComparison\<close>,
  \<^verbatim>\<open>executeIndexExpr\<close>, \<^verbatim>\<open>buildArray\<close> and \<^verbatim>\<open>buildHash\<close> of the VM are called by
  \<^verbatim>\<open>Run\<close> but are not part of the sources at hand. \<^verbatim>\<open>Run\<close> receives them, together
  with the numbering of the opcodes, as parameters.
\<close>

record env =
  opc :: "Opcode \<Rightarrow> byte"
  executeBangOp :: "VM \<Rightarrow> VM result"
  executeMinusOp :: "VM \<Rightarrow> VM result"
  executeComparison :: "VM \<Rightarrow> byte \<Rightarrow> VM result"
  executeIndexExpr :: "VM \<Rightarrow> Data option \<Rightarrow> Data option \<Rightarrow> VM result"
  buildArray :: "VM \<Rightarrow> int \<Rightarrow> int \<Rightarrow> Data result"
  buildHash :: "VM \<Rightarrow> int \<Rightarrow> int \<Rightarrow> Data result"

subsection \<open>Binary operations (src/unnamed/part_001, package vm)\<close>

text \<open>
  Go's \<^verbatim>\<open>int64\<close> is a 64-bit word: \<open>+\<close>, \<open>-\<close> and \<open>*\<close> wrap around. The quotient
  \<^verbatim>\<open>leftValue / rightValue\<close> truncates toward zero (\<open>sdiv\<close> on the signed values,
  wrapped to 64 bits) and panics at run time when the divisor is zero. The type
  assertions \<^verbatim>\<open>left.(*data.Integer)\<close> panic on any other value.
\<close>

definition executeBinaryIntegerOp ::
  "(Opcode \<Rightarrow> byte) \<Rightarrow> VM \<Rightarrow> byte \<Rightarrow> Data \<Rightarrow> Data \<Rightarrow> VM result" where
  "executeBinaryIntegerOp oc vm op left right =
     (case (left, right) of
        (Integer leftValue, Integer rightValue) \<Rightarrow>
          if op = oc OpAdd then pushVM vm (Some (Integer (leftValue + rightValue)))
          else if op = oc OpSub then pushVM vm (Some (Integer (leftValue - rightValue)))
          else if op = oc OpMul then pushVM vm (Some (Integer (leftValue * rightValue)))
          else if op = oc OpDiv then
            (if rightValue = 0 then Panic
             else pushVM vm (Some (Integer (word_of_int (sint leftValue sdiv sint rightValue)))))
          else Err (Errorf ''unknown integer operator: %d'' [ArgInt (uint op)])
      | _ \<Rightarrow> Panic)"

definition executeBinaryOp :: "(Opcode \<Rightarrow> byte) \<Rightarrow> VM \<Rightarrow> byte \<Rightarrow> VM result" where
  "executeBinaryOp oc vm op =
     andThen (popVM vm) (\<lambda>(right, vm1).
     andThen (popVM vm1) (\<lambda>(left, vm2).
       case (left, right) of
         (Some l, Some r) \<Rightarrow>
           if Type l = INTEGER_TYPE \<and> Type r = INTEGER_TYPE
           then executeBinaryIntegerOp oc vm2 op l r
           else Err (Errorf ''unsupported types for binary operation: %s %s''
                       [ArgType (Type l), ArgType (Type r)])
       | _ \<Rightarrow> Panic))"

subsection \<open>The cases of the dispatch switch of \<^verbatim>\<open>Run\<close>\<close>

text \<open>
  Each function below is the body of one \<^verbatim>\<open>case\<close>. It receives the VM after the
  increment of the instruction pointer and, where the case reads an operand, the slice
  \<^verbatim>\<open>instructions[pointer+1:]\<close>.
\<close>

definition case_Pop :: "VM \<Rightarrow> VM result" where
  "case_Pop vm = andThen (popVM vm) (\<lambda>(_, vm1). Ok vm1)"

definition case_Constant :: "VM \<Rightarrow> Instruction \<Rightarrow> VM result" where
  "case_Constant vm operands =
     andThen (ReadUint16 operands) (\<lambda>constIndex.
       let vm1 = addPointer vm 2 in
       if nat constIndex < length (constants vm1)
       then pushVM vm1 (Some (constants vm1 ! nat constIndex))
       else Panic)"

definition case_Jump :: "VM \<Rightarrow> Instruction \<Rightarrow> VM result" where
  "case_Jump vm operands =
     andThen (ReadUint16 operands) (\<lambda>pos. Ok (setPointer vm (pos - 1)))"

definition case_JumpNotTruthy :: "VM \<Rightarrow> Instruction \<Rightarrow> VM result" where
  "case_JumpNotTruthy vm operands =
     andThen (ReadUint16 operands) (\<lambda>pos.
     andThen (popVM (addPointer vm 2)) (\<lambda>(condition, vm2).
       if \<not> isTruthy condition then Ok (setPointer vm2 (pos - 1)) else Ok vm2))"

definition case_SetGlobal :: "VM \<Rightarrow> Instruction \<Rightarrow> VM result" where
  "case_SetGlobal vm operands =
     andThen (ReadUint16 operands) (\<lambda>index.
     andThen (popVM (addPointer vm 2)) (\<lambda>(d, vm2).
       if nat index < length (globals vm2)
       then Ok (vm2\<lparr>globals := (globals vm2)[nat index := d]\<rparr>)
       else Panic))"

definition case_GetGlobal :: "VM \<Rightarrow> Instruction \<Rightarrow> VM result" where
  "case_GetGlobal vm operands =
     andThen (ReadUint16 operands) (\<lambda>index.
       let vm1 = addPointer vm 2 in
       if nat index < length (globals vm1)
       then pushVM vm1 (globals vm1 ! nat index)
       else Panic)"

definition case_SetLocal :: "VM \<Rightarrow> Instruction \<Rightarrow> VM result" where
  "case_SetLocal vm operands =
     andThen (ReadUint8 operands) (\<lambda>localIndex.
       let vm1 = addPointer vm 1 in
       andThen (current (frames vm1)) (\<lambda>frame.
       andThen (popVM vm1) (\<lambda>(d, vm2).
         let i = framePointer frame + localIndex in
         if 0 \<le> i \<and> i < int (length (items (stack vm2)))
         then Ok (vm2\<lparr>stack := (stack vm2)\<lparr>items := (items (stack vm2))[nat i := d]\<rparr>\<rparr>)
         else Panic)))"

definition case_GetLocal :: "VM \<Rightarrow> Instruction \<Rightarrow> VM result" where
  "case_GetLocal vm operands =
     andThen (ReadUint8 operands) (\<lambda>localIndex.
       let vm1 = addPointer vm 1 in
       andThen (current (frames vm1)) (\<lambda>frame.
         let i = framePointer frame + localIndex in
         if 0 \<le> i \<and> i < int (length (items (stack vm1)))
         then pushVM vm1 (items (stack vm1) ! nat i)
         else Panic))"

definition case_Array :: "env \<Rightarrow> VM \<Rightarrow> Instruction \<Rightarrow> VM result" where
  "case_Array e vm operands =
     andThen (ReadUint16 operands) (\<lambda>numElements.
       let vm1 = addPointer vm 2 in
       andThen (buildArray e vm1 (sp (stack vm1) - numElements) (sp (stack vm1))) (\<lambda>array.
         pushVM (setSp vm1 (sp (stack vm1) - numElements)) (Some array)))"

definition case_Hash :: "env \<Rightarrow> VM \<Rightarrow> Instruction \<Rightarrow> VM result" where
  "case_Hash e vm operands =
     andThen (ReadUint16 operands) (\<lambda>numElements.
       let vm1 = addPointer vm 2 in
       andThen (buildHash e vm1 (sp (stack vm1) - numElements) (sp (stack vm1))) (\<lambda>hash.
         pushVM (setSp vm1 (sp (stack vm1) - numElements)) (Some hash)))"

definition case_Index :: "env \<Rightarrow> VM \<Rightarrow> VM result" where
  "case_Index e vm =
     andThen (popVM vm) (\<lambda>(index, vm1).
     andThen (popVM vm1) (\<lambda>(left, vm2).
       executeIndexExpr e vm2 left index))"

definition case_Call :: "VM \<Rightarrow> VM result" where
  "case_Call vm =
     (let vm1 = addPointer vm 1 in
      andThen (top (stack vm1)) (\<lambda>t.
        case t of
          Some (Function f) \<Rightarrow>
            let frame = NewFrame f (sp (stack vm1)) in
            andThen (fpush (frames vm1) frame) (\<lambda>fs.
              Ok (setSp (vm1\<lparr>frames := fs\<rparr>) (framePointer frame + LocalCount f)))
        | _ \<Rightarrow> Err (Errorf ''calling non-function'' [])))"

definition case_ReturnValue :: "VM \<Rightarrow> VM result" where
  "case_ReturnValue vm =
     andThen (popVM vm) (\<lambda>(val, vm1).
     andThen (fpop (frames vm1)) (\<lambda>(frame, fs).
       pushVM (setSp (vm1\<lparr>frames := fs\<rparr>) (framePointer frame - 1)) val))"

definition case_Return :: "VM \<Rightarrow> VM result" where
  "case_Return vm =
     andThen (fpop (frames vm)) (\<lambda>(frame, fs).
       pushVM (setSp (vm\<lparr>frames := fs\<rparr>) (framePointer frame - 1)) (Some Null))"

text \<open>The switch, in the order of the source. There is no \<^verbatim>\<open>default\<close> case.\<close>

definition dispatch :: "env \<Rightarrow> VM \<Rightarrow> byte \<Rightarrow> Instruction \<Rightarrow> VM result" where
  "dispatch e vm op operands =
     (if op = opc e OpPop then case_Pop vm
      else if op = opc e OpConstant then case_Constant vm operands
      else if op = opc e OpTrue then pushVM vm (Some (Boolean True))
      else if op = opc e OpFalse then pushVM vm (Some (Boolean False))
      else if op = opc e OpBang then executeBangOp e vm
      else if op = opc e OpMinus then executeMinusOp e vm
      else if op = opc e OpAdd \<or> op = opc e OpSub \<or> op = opc e OpMul \<or> op = opc e OpDiv
        then executeBinaryOp (opc e) vm op
      else if op = opc e OpEqual \<or> op = opc e OpNotEqual \<or> op = opc e OpGreaterThan
        then executeComparison e vm op
      else if op = opc e OpJump then case_Jump vm operands
      else if op = opc e OpJumpNotTruthy then case_JumpNotTruthy vm operands
      else if op = opc e OpNull then pushVM vm (Some Null)
      else if op = opc e OpSetGlobal then case_SetGlobal vm operands
      else if op = opc e OpGetGlobal then case_GetGlobal vm operands
      else if op = opc e OpSetLocal then case_SetLocal vm operands
      else if op = opc e OpGetLocal then case_GetLocal vm operands
      else if op = opc e OpArray then case_Array e vm operands
      else if op = opc e OpHash then case_Hash e vm operands
      else if op = opc e OpIndex then case_Index e vm
      else if op = opc e OpCall then case_Call vm
      else if op = opc e OpReturnValue then case_ReturnValue vm
      else if op = opc e OpReturn then case_Return vm
      else Ok vm)"

text \<open>
  One iteration of the loop of \<^verbatim>\<open>Run\<close>: increment the pointer of the current frame,
  read the opcode there, dispatch. \<open>fetch\<close> gives the incremented pointer, the opcode
  \<^verbatim>\<open>instructions[pointer]\<close> and the slice \<^verbatim>\<open>instructions[pointer+1:]\<close>.
\<close>

definition fetch :: "VM \<Rightarrow> (int \<times> byte \<times> Instruction) result" where
  "fetch vm =
     andThen (current (frames vm)) (\<lambda>f.
       let p = pointer f + 1;
           instructions = Instructions (fn f)
       in if p < 0 \<or> p \<ge> int (length instructions) then Panic
          else Ok (p, instructions ! nat p, drop (nat (p + 1)) instructions))"

definition step :: "env \<Rightarrow> VM \<Rightarrow> VM result" where
  "step e vm =
     andThen (fetch vm) (\<lambda>(p, op, operands). dispatch e (setPointer vm p) op operands)"

text \<open>
  \<^verbatim>\<open>Run\<close>. The loop need not end (a \<^verbatim>\<open>Jump\<close> can go backwards), so the function is
  partial: \<open>None\<close> is a run that never returns, \<open>Some (Ok vm)\<close> is \<^verbatim>\<open>return nil\<close>
  with the VM left in state \<open>vm\<close>, \<open>Some (Err e)\<close> is \<^verbatim>\<open>return err\<close>.
\<close>

partial_function (option) Run :: "env \<Rightarrow> VM \<Rightarrow> VM result option" where
  "Run e vm =
     (case current (frames vm) of
        Ok f \<Rightarrow>
          if pointer f < int (length (Instructions (fn f))) - 1
          then (case step e vm of
                  Ok vm' \<Rightarrow> Run e vm'
                | Err er \<Rightarrow> Some (Err er)
                | Panic \<Rightarrow> Some Panic)
          else Some (Ok vm)
      | Err er \<Rightarrow> Some (Err er)
      | Panic \<Rightarrow> Some Panic)"

text \<open>The opcodes that have a \<^verbatim>\<open>case\<close> in the switch of \<^verbatim>\<open>Run\<close>, in its order.\<close>

definition handled :: "Opcode list" where
  "handled =
     [OpPop, OpConstant, OpTrue, OpFalse, OpBang, OpMinus, OpAdd, OpSub, OpMul, OpDiv,
      OpEqual, OpNotEqual, OpGreaterThan, OpJump, OpJumpNotTruthy, OpNull,
      OpSetGlobal, OpGetGlobal, OpSetLocal, OpGetLocal, OpArray, OpHash, OpIndex,
      OpCall, OpReturnValue, OpReturn]"

text \<open>\<open>isOk r\<close>: the operation returned without error and without panic.\<close>

definition isOk :: "'a result \<Rightarrow> bool" where
  "isOk r = (case r of Ok _ \<Rightarrow> True | _ \<Rightarrow> False)"

section \<open>Concrete inputs\<close>

text \<open>
  An instance of the parameters for evaluating the definitions: the numbering \<open>iota\<close>,
  and in place of the six methods that are not at hand a failure. The instruction streams
  evaluated below contain none of the opcodes that reach these methods.
\<close>

definition env_iota :: env where
  "env_iota =
     \<lparr>opc = iota,
      executeBangOp = (\<lambda>vm. Panic),
      executeMinusOp = (\<lambda>vm. Panic),
      executeComparison = (\<lambda>vm op. Panic),
      executeIndexExpr = (\<lambda>vm left index. Panic),
      buildArray = (\<lambda>vm i j. Panic),
      buildHash = (\<lambda>vm i j. Panic)\<rparr>"

text \<open>
  The VM that \<^verbatim>\<open>New\<close> builds for the instructions \<open>ins\<close> and the constants \<open>cs\<close>,
  with the pointer of the main frame at \<open>p\<close> and the values \<open>st\<close> on the stack.
\<close>

definition example_vm :: "Instruction \<Rightarrow> Data list \<Rightarrow> int \<Rightarrow> Data option list \<Rightarrow> VM" where
  "example_vm ins cs p st =
     (New \<lparr>bInstructions = ins, bConstants = cs\<rparr>)
       \<lparr>stack := \<lparr>items = st @ replicate (StackLimit - length st) None, sp = int (length st)\<rparr>,
        frames := \<lparr>flist = [\<lparr>fn = \<lparr>Instructions = ins, LocalCount = 0, ParamCount = 0\<rparr>,
                             pointer = p, framePointer = 0\<rparr>],
                   flimit = FrameLimit\<rparr>\<rparr>"

text \<open>Two compiled functions whose body is a single \<^verbatim>\<open>Return\<close>.\<close>

definition one_param_fn :: CompiledFunction where
  "one_param_fn = \<lparr>Instructions = [iota OpReturn], LocalCount = 1, ParamCount = 1\<rparr>"

definition two_locals_fn :: CompiledFunction where
  "two_locals_fn = \<lparr>Instructions = [iota OpReturn], LocalCount = 2, ParamCount = 0\<rparr>"

section \<open>The compiler (src/unnamed/part_001, package compiler)\<close>

subsection \<open>The syntax tree (package ast)\<close>

text \<open>
  Modelled from the spec: package \<^verbatim>\<open>ast\<close> is missing. The variants and their fields are
  the ones \<^verbatim>\<open>Compile\<close> reads (section 6, the AST contract). The consequent, the
  alternate and a function body are block statements, that is lists of statements; the
  alternate may be nil. \<^verbatim>\<open>HashLiteral.Pairs\<close> is a Go map from key node to value node.
  Its keys are pointers, so two keys with the same content are two entries. The list of
  pairs of the model is the map in the order in which one \<^verbatim>\<open>range\<close> over it yields
  the entries; Go leaves that order open, so the same map is any permutation of the list.
\<close>

datatype Expression =
    Identifier string
  | IntegerLiteral "64 word"
  | Boolean_ast bool
  | StringLiteral string
  | PrefixExpression string Expression
  | InfixExpression string Expression Expression
  | ArrayLiteral "Expression list"
  | HashLiteral "(Expression \<times> Expression) list"
  | IndexExpression Expression Expression
  | IfExpression Expression "Statement list" "Statement list option"
  | FunctionLiteral "string list" "Statement list"
  | CallExpression Expression "Expression list"
and Statement =
    ExpressionStatement Expression
  | LetStatement string Expression
  | ReturnStatement Expression

subsection \<open>The symbol table (package symbols)\<close>

text \<open>
  Modelled from the spec: package \<^verbatim>\<open>symbols\<close> is missing. Section 4.2: \<open>Define\<close> gives
  the next index of the table, with scope Global when the table has no outer table and
  Local otherwise; \<open>DefineBuiltin\<close> takes the index; \<open>DefineFree\<close> appends the
  original symbol to the free list and gives a Free symbol with its position (and binds
  the name to it, so that the index stays the position of the first capture, section 8);
  \<open>Resolve\<close>
  looks in the table, then in the outer one, and turns a Local or Free symbol found
  outside into a Free symbol of the table. A table is changed in place and the outer
  table is reached through a pointer, so every operation returns the changed table.
\<close>

datatype SymbolScope = GlobalScope | LocalScope | BuiltinScope | FreeScope

record Symbol =
  SName :: string
  SScope :: SymbolScope
  SIndex :: int

datatype SymbolTable =
  SymbolTable (store: "(string \<times> Symbol) list") (DefinitionCount: int)
    (Free: "Symbol list") (Outer: "SymbolTable option")

definition New_symbols :: SymbolTable where
  "New_symbols = SymbolTable [] 0 [] None"

definition NewEnclosed :: "SymbolTable \<Rightarrow> SymbolTable" where
  "NewEnclosed outer = SymbolTable [] 0 [] (Some outer)"

definition Define :: "SymbolTable \<Rightarrow> string \<Rightarrow> Symbol \<times> SymbolTable" where
  "Define t name =
     (let symbol = \<lparr>SName = name,
                     SScope = (if Outer t = None then GlobalScope else LocalScope),
                     SIndex = DefinitionCount t\<rparr>
      in (symbol, SymbolTable ((name, symbol) # store t) (DefinitionCount t + 1)
                    (Free t) (Outer t)))"

definition DefineBuiltin :: "SymbolTable \<Rightarrow> int \<Rightarrow> string \<Rightarrow> Symbol \<times> SymbolTable" where
  "DefineBuiltin t index name =
     (let symbol = \<lparr>SName = name, SScope = BuiltinScope, SIndex = index\<rparr>
      in (symbol, SymbolTable ((name, symbol) # store t) (DefinitionCount t)
                    (Free t) (Outer t)))"

definition DefineFree :: "SymbolTable \<Rightarrow> Symbol \<Rightarrow> Symbol \<times> SymbolTable" where
  "DefineFree t original =
     (let symbol = \<lparr>SName = SName original, SScope = FreeScope,
                     SIndex = int (length (Free t))\<rparr>
      in (symbol, SymbolTable ((SName original, symbol) # store t) (DefinitionCount t)
                    (Free t @ [original]) (Outer t)))"

fun Resolve :: "SymbolTable \<Rightarrow> string \<Rightarrow> Symbol option \<times> SymbolTable" where
  "Resolve (SymbolTable st n fr outer) name =
     (case map_of st name of
        Some symbol \<Rightarrow> (Some symbol, SymbolTable st n fr outer)
      | None \<Rightarrow>
          (case outer of
             None \<Rightarrow> (None, SymbolTable st n fr outer)
           | Some out \<Rightarrow>
               (case Resolve out name of
                  (None, out') \<Rightarrow> (None, SymbolTable st n fr (Some out'))
                | (Some symbol, out') \<Rightarrow>
                    if SScope symbol = GlobalScope \<or> SScope symbol = BuiltinScope
                    then (Some symbol, SymbolTable st n fr (Some out'))
                    else (case DefineFree (SymbolTable st n fr (Some out')) symbol of
                            (free, t') \<Rightarrow> (Some free, t')))))"

subsection \<open>Encoding of instructions\<close>

text \<open>
  Modelled from the spec: \<^verbatim>\<open>NewInstruction\<close> is missing. Section 4.1: the operand widths
  of each opcode are those of the opcode table; \<^verbatim>\<open>NewInstruction\<close> validates that the
  number of operands and their magnitudes fit the declared widths and writes the opcode
  byte followed by the operands, big-endian. What it does when the validation fails is
  not stated, and \<^verbatim>\<open>emit\<close> has no error to return: the model makes it a panic.
\<close>

fun operandWidths :: "Opcode \<Rightarrow> nat list" where
  "operandWidths OpConstant = [2]"
| "operandWidths OpJump = [2]"
| "operandWidths OpJumpNotTruthy = [2]"
| "operandWidths OpSetGlobal = [2]"
| "operandWidths OpGetGlobal = [2]"
| "operandWidths OpSetLocal = [1]"
| "operandWidths OpGetLocal = [1]"
| "operandWidths OpGetBuiltin = [1]"
| "operandWidths OpGetFree = [1]"
| "operandWidths OpArray = [2]"
| "operandWidths OpHash = [2]"
| "operandWidths OpCall = [1]"
| "operandWidths OpClosure = [2, 1]"
| "operandWidths _ = []"

definition all_opcodes :: "Opcode list" where
  "all_opcodes =
     [OpConstant, OpPop, OpAdd, OpSub, OpMul, OpDiv, OpTrue, OpFalse, OpNull,
      OpEqual, OpNotEqual, OpGreaterThan, OpBang, OpMinus, OpJump, OpJumpNotTruthy,
      OpSetGlobal, OpGetGlobal, OpSetLocal, OpGetLocal, OpGetBuiltin, OpGetFree,
      OpArray, OpHash, OpIndex, OpCall, OpReturnValue, OpReturn, OpClosure]"

definition putUint :: "nat \<Rightarrow> int \<Rightarrow> byte list" where
  "putUint w v = map (\<lambda>i. word_of_int (v div 256 ^ (w - 1 - i))) [0..<w]"

definition fits :: "nat list \<Rightarrow> int list \<Rightarrow> bool" where
  "fits widths operands \<longleftrightarrow>
     length operands = length widths \<and>
     list_all (\<lambda>(w, v). 0 \<le> v \<and> v < 256 ^ w) (zip widths operands)"

definition NewInstruction :: "(Opcode \<Rightarrow> byte) \<Rightarrow> byte \<Rightarrow> int list \<Rightarrow> Instruction result" where
  "NewInstruction oc op operands =
     (case find (\<lambda>name. oc name = op) all_opcodes of
        None \<Rightarrow> Panic
      | Some name \<Rightarrow>
          if fits (operandWidths name) operands
          then Ok (op # concat (map (\<lambda>(w, v). putUint w v) (zip (operandWidths name) operands)))
          else Panic)"

subsection \<open>The compiler state\<close>

record Emitted =
  Opcode :: byte
  Position :: int

record Scope =
  instructions :: Instruction
  emitted :: Emitted
  prevEmitted :: Emitted

record Compiler =
  constants_c :: "Data list"
  symbols :: SymbolTable
  scopes :: "Scope list"
  currentScope :: int

text \<open>
  Go's zero value \<^verbatim>\<open>Emitted{}\<close> has opcode 0 and position 0.
\<close>

definition emptyScope :: Scope where
  "emptyScope = \<lparr>instructions = [],
                 emitted = \<lparr>Opcode = 0, Position = 0\<rparr>,
                 prevEmitted = \<lparr>Opcode = 0, Position = 0\<rparr>\<rparr>"

text \<open>
  The parameters of the compiler that are not part of the sources at hand: the numbering
  of the opcodes, the method \<^verbatim>\<open>String()\<close> of the nodes of the syntax tree, and the
  names of \<^verbatim>\<open>data.Builtins\<close> in their order.
\<close>

record cenv =
  copc :: "Opcode \<Rightarrow> byte"
  nodeString :: "Expression \<Rightarrow> string"
  builtinNames :: "string list"

fun defineBuiltins :: "SymbolTable \<Rightarrow> int \<Rightarrow> string list \<Rightarrow> SymbolTable" where
  "defineBuiltins t i [] = t"
| "defineBuiltins t i (v # vs) = defineBuiltins (snd (DefineBuiltin t i v)) (i + 1) vs"

definition New_compiler :: "cenv \<Rightarrow> Compiler" where
  "New_compiler ce =
     \<lparr>constants_c = [],
      symbols = defineBuiltins New_symbols 0 (builtinNames ce),
      scopes = [emptyScope],
      currentScope = 0\<rparr>"

definition NewWithState :: "cenv \<Rightarrow> SymbolTable \<Rightarrow> Data list \<Rightarrow> Compiler" where
  "NewWithState ce syms consts = (New_compiler ce)\<lparr>constants_c := consts, symbols := syms\<rparr>"

text \<open>\<^verbatim>\<open>c.scopes[c.currentScope]\<close>, read and written; an index out of range panics.\<close>

definition scopeAt :: "Compiler \<Rightarrow> Scope result" where
  "scopeAt c =
     (if 0 \<le> currentScope c \<and> currentScope c < int (length (scopes c))
      then Ok (scopes c ! nat (currentScope c))
      else Panic)"

definition setScope :: "Compiler \<Rightarrow> Scope \<Rightarrow> Compiler" where
  "setScope c s = c\<lparr>scopes := (scopes c)[nat (currentScope c) := s]\<rparr>"

definition currentInstructions :: "Compiler \<Rightarrow> Instruction result" where
  "currentInstructions c = andThen (scopeAt c) (\<lambda>s. Ok (instructions s))"

definition Bytecode_of :: "Compiler \<Rightarrow> Bytecode result" where
  "Bytecode_of c =
     andThen (currentInstructions c) (\<lambda>ins.
       Ok \<lparr>bInstructions = ins, bConstants = constants_c c\<rparr>)"

definition addConstant :: "Compiler \<Rightarrow> Data \<Rightarrow> int \<times> Compiler" where
  "addConstant c d =
     (int (length (constants_c c)), c\<lparr>constants_c := constants_c c @ [d]\<rparr>)"

definition addInstruction :: "Compiler \<Rightarrow> Instruction \<Rightarrow> (int \<times> Compiler) result" where
  "addInstruction c ins =
     andThen (scopeAt c) (\<lambda>s.
       Ok (int (length (instructions s)),
           setScope c (s\<lparr>instructions := instructions s @ ins\<rparr>)))"

definition setEmitted :: "Compiler \<Rightarrow> byte \<Rightarrow> int \<Rightarrow> Compiler result" where
  "setEmitted c op pos =
     andThen (scopeAt c) (\<lambda>s.
       Ok (setScope c (s\<lparr>prevEmitted := emitted s,
                          emitted := \<lparr>Opcode = op, Position = pos\<rparr>\<rparr>)))"

definition emit :: "cenv \<Rightarrow> Compiler \<Rightarrow> byte \<Rightarrow> int list \<Rightarrow> (int \<times> Compiler) result" where
  "emit ce c op operands =
     andThen (NewInstruction (copc ce) op operands) (\<lambda>ins.
     andThen (addInstruction c ins) (\<lambda>(pos, c1).
     andThen (setEmitted c1 op pos) (\<lambda>c2. Ok (pos, c2))))"

text \<open>\<open>emit\<close> where the position is not used.\<close>

definition emitOp :: "cenv \<Rightarrow> Compiler \<Rightarrow> byte \<Rightarrow> int list \<Rightarrow> Compiler result" where
  "emitOp ce c op operands = andThen (emit ce c op operands) (\<lambda>(_, c1). Ok c1)"

definition isEmitted :: "Compiler \<Rightarrow> byte \<Rightarrow> bool result" where
  "isEmitted c code =
     andThen (scopeAt c) (\<lambda>s.
       Ok (if length (instructions s) = 0 then False else Opcode (emitted s) = code))"

text \<open>
  \<^verbatim>\<open>old[:Position]\<close>: Go panics when the bound is negative or beyond the capacity of
  the slice; the model panics beyond its length.
\<close>

definition preventPop :: "Compiler \<Rightarrow> Compiler result" where
  "preventPop c =
     andThen (scopeAt c) (\<lambda>s.
       let n = Position (emitted s) in
       if n < 0 \<or> n > int (length (instructions s)) then Panic
       else Ok (setScope c (s\<lparr>instructions := take (nat n) (instructions s),
                               emitted := prevEmitted s\<rparr>)))"

text \<open>The loop of \<^verbatim>\<open>changeInstruction\<close>: \<^verbatim>\<open>instructions[pos+i] = ins[i]\<close>.\<close>

fun overwrite :: "Instruction \<Rightarrow> int \<Rightarrow> Instruction \<Rightarrow> Instruction result" where
  "overwrite xs pos [] = Ok xs"
| "overwrite xs pos (b # bs) =
     (if pos < 0 \<or> pos \<ge> int (length xs) then Panic
      else overwrite (xs[nat pos := b]) (pos + 1) bs)"

definition changeInstruction :: "Compiler \<Rightarrow> int \<Rightarrow> Instruction \<Rightarrow> Compiler result" where
  "changeInstruction c pos ins =
     andThen (scopeAt c) (\<lambda>s.
     andThen (overwrite (instructions s) pos ins) (\<lambda>new.
       Ok (setScope c (s\<lparr>instructions := new\<rparr>))))"

definition changeOperand :: "cenv \<Rightarrow> Compiler \<Rightarrow> int \<Rightarrow> int \<Rightarrow> Compiler result" where
  "changeOperand ce c pos operand =
     andThen (currentInstructions c) (\<lambda>old.
       if pos < 0 \<or> pos \<ge> int (length old) then Panic
       else andThen (NewInstruction (copc ce) (old ! nat pos) [operand]) (\<lambda>ins.
              changeInstruction c pos ins))"

definition changeEmittedTo :: "cenv \<Rightarrow> Compiler \<Rightarrow> byte \<Rightarrow> Compiler result" where
  "changeEmittedTo ce c code =
     andThen (scopeAt c) (\<lambda>s.
     andThen (NewInstruction (copc ce) code []) (\<lambda>ins.
     andThen (changeInstruction c (Position (emitted s)) ins) (\<lambda>c1.
     andThen (scopeAt c1) (\<lambda>s1.
       Ok (setScope c1 (s1\<lparr>emitted := (emitted s1)\<lparr>Opcode := code\<rparr>\<rparr>))))))"

definition enterScope :: "Compiler \<Rightarrow> Compiler" where
  "enterScope c =
     c\<lparr>scopes := scopes c @ [emptyScope],
       currentScope := currentScope c + 1,
       symbols := NewEnclosed (symbols c)\<rparr>"

text \<open>
  \<^verbatim>\<open>leaveScope\<close>. Go would store a nil outer table and panic at its next use;
  \<^verbatim>\<open>Compile\<close> leaves only scopes that it entered, whose table has an outer one.
\<close>

definition leaveScope :: "Compiler \<Rightarrow> (Instruction \<times> Compiler) result" where
  "leaveScope c =
     andThen (currentInstructions c) (\<lambda>ins.
       case Outer (symbols c) of
         None \<Rightarrow> Panic
       | Some outer \<Rightarrow>
           Ok (ins, c\<lparr>scopes := butlast (scopes c),
                      currentScope := currentScope c - 1,
                      symbols := outer\<rparr>))"

definition loadSymbol :: "cenv \<Rightarrow> Compiler \<Rightarrow> Symbol \<Rightarrow> Compiler result" where
  "loadSymbol ce c s =
     (case SScope s of
        GlobalScope \<Rightarrow> emitOp ce c (copc ce OpGetGlobal) [SIndex s]
      | LocalScope \<Rightarrow> emitOp ce c (copc ce OpGetLocal) [SIndex s]
      | BuiltinScope \<Rightarrow> emitOp ce c (copc ce OpGetBuiltin) [SIndex s]
      | FreeScope \<Rightarrow> emitOp ce c (copc ce OpGetFree) [SIndex s])"

text \<open>A Go loop that calls a failing operation on each element and returns at the first error.\<close>

fun forEach :: "('s \<Rightarrow> 's result) list \<Rightarrow> 's \<Rightarrow> 's result" where
  "forEach [] c = Ok c"
| "forEach (f # fs) c = andThen (f c) (forEach fs)"

text \<open>
  \<^verbatim>\<open>sort.Slice(keys, less)\<close> with \<^verbatim>\<open>keys[i].String() < keys[j].String()\<close>.
  \<^verbatim>\<open>sort.Slice\<close> promises no order among elements that compare equal; on short slices
  Go's implementation is an insertion sort, which keeps them in the order in which they
  came, and that is what \<open>sort_key\<close> does.
\<close>

definition sortKeys ::
  "cenv \<Rightarrow> (Expression \<times> Expression) list \<Rightarrow> (Expression \<times> Expression) list" where
  "sortKeys ce pairs = sort_key (\<lambda>(k, v). nodeString ce k) pairs"

lemma set_sortKeys [simp]: "set (sortKeys ce pairs) = set pairs"
  by (simp add: sortKeys_def)

text \<open>\<^verbatim>\<open>if c.isEmitted(operation.Pop) { c.preventPop() }\<close>\<close>

definition preventPopIfEmitted :: "cenv \<Rightarrow> Compiler \<Rightarrow> Compiler result" where
  "preventPopIfEmitted ce c =
     andThen (isEmitted c (copc ce OpPop)) (\<lambda>b. if b then preventPop c else Ok c)"

text \<open>The loop over the parameters of a function literal: \<^verbatim>\<open>c.symbols.Define(p.Value)\<close>.\<close>

definition defineParameters :: "SymbolTable \<Rightarrow> string list \<Rightarrow> SymbolTable" where
  "defineParameters t ps = fold (\<lambda>p t'. snd (Define t' p)) ps t"

subsection \<open>\<^verbatim>\<open>Compile\<close>\<close>

text \<open>
  \<^verbatim>\<open>Compile\<close> on an expression node and on a statement node. The loops over the
  statements of a block, of the program, over the elements of an array literal and over
  the arguments of a call are \<open>forEach\<close>. In the case of a hash literal the pairs are
  compiled in the order of the sorted keys; \<^verbatim>\<open>node.Pairs[k]\<close> is the value that came with
  the key \<open>k\<close>.
\<close>

fun Compile_expr :: "cenv \<Rightarrow> Expression \<Rightarrow> Compiler \<Rightarrow> Compiler result"
  and Compile_stmt :: "cenv \<Rightarrow> Statement \<Rightarrow> Compiler \<Rightarrow> Compiler result" where
  "Compile_stmt ce (ExpressionStatement expression) = (\<lambda>c.
     andThen (Compile_expr ce expression c) (\<lambda>c1.
       emitOp ce c1 (copc ce OpPop) []))"
| "Compile_expr ce (InfixExpression operator left right) = (\<lambda>c.
     if operator = ''<'' then
       andThen (Compile_expr ce right c) (\<lambda>c1.
       andThen (Compile_expr ce left c1) (\<lambda>c2.
         emitOp ce c2 (copc ce OpGreaterThan) []))
     else
       andThen (Compile_expr ce left c) (\<lambda>c1.
       andThen (Compile_expr ce right c1) (\<lambda>c2.
         if operator = ''+'' then emitOp ce c2 (copc ce OpAdd) []
         else if operator = ''-'' then emitOp ce c2 (copc ce OpSub) []
         else if operator = ''*'' then emitOp ce c2 (copc ce OpMul) []
         else if operator = ''/'' then emitOp ce c2 (copc ce OpDiv) []
         else if operator = ''>'' then emitOp ce c2 (copc ce OpGreaterThan) []
         else if operator = ''=='' then emitOp ce c2 (copc ce OpEqual) []
         else if operator = ''!='' then emitOp ce c2 (copc ce OpNotEqual) []
         else Err (Errorf ''unknown operator %s'' [ArgStr operator]))))"
| "Compile_expr ce (PrefixExpression operator right) = (\<lambda>c.
     andThen (Compile_expr ce right c) (\<lambda>c1.
       if operator = ''!'' then emitOp ce c1 (copc ce OpBang) []
       else if operator = ''-'' then emitOp ce c1 (copc ce OpMinus) []
       else Err (Errorf ''unknown operator %s'' [ArgStr operator])))"
| "Compile_expr ce (IntegerLiteral v) = (\<lambda>c.
     case addConstant c (Integer v) of
       (index, c1) \<Rightarrow> emitOp ce c1 (copc ce OpConstant) [index])"
| "Compile_expr ce (Boolean_ast v) = (\<lambda>c.
     if v then emitOp ce c (copc ce OpTrue) [] else emitOp ce c (copc ce OpFalse) [])"
| "Compile_expr ce (StringLiteral v) = (\<lambda>c.
     case addConstant c (String v) of
       (index, c1) \<Rightarrow> emitOp ce c1 (copc ce OpConstant) [index])"
| "Compile_expr ce (ArrayLiteral elements) = (\<lambda>c.
     andThen (forEach (map (\<lambda>el. Compile_expr ce el) elements) c) (\<lambda>c1.
       emitOp ce c1 (copc ce OpArray) [int (length elements)]))"
| "Compile_expr ce (HashLiteral pairs) = (\<lambda>c.
     andThen (forEach (map (\<lambda>(k, v). \<lambda>c'.
                andThen (Compile_expr ce k c') (\<lambda>c''. Compile_expr ce v c''))
              (sortKeys ce pairs)) c) (\<lambda>c1.
       emitOp ce c1 (copc ce OpHash) [int (length pairs) * 2]))"
| "Compile_expr ce (IndexExpression left index) = (\<lambda>c.
     andThen (Compile_expr ce left c) (\<lambda>c1.
     andThen (Compile_expr ce index c1) (\<lambda>c2.
       emitOp ce c2 (copc ce OpIndex) [])))"
| "Compile_expr ce (IfExpression condition consequent alternate) = (\<lambda>c.
     andThen (Compile_expr ce condition c) (\<lambda>c1.
     andThen (emit ce c1 (copc ce OpJumpNotTruthy) [9999]) (\<lambda>(jumpNotTruthyPos, c2).
     andThen (forEach (map (\<lambda>s. Compile_stmt ce s) consequent) c2) (\<lambda>c3.
     andThen (preventPopIfEmitted ce c3) (\<lambda>c4.
     andThen (emit ce c4 (copc ce OpJump) [9999]) (\<lambda>(jumpPos, c5).
     andThen (currentInstructions c5) (\<lambda>ins5.
     andThen (changeOperand ce c5 jumpNotTruthyPos (int (length ins5))) (\<lambda>c6.
     andThen (case alternate of
                None \<Rightarrow> emitOp ce c6 (copc ce OpNull) []
              | Some alt \<Rightarrow>
                  andThen (forEach (map (\<lambda>s. Compile_stmt ce s) alt) c6) (\<lambda>c'.
                    preventPopIfEmitted ce c')) (\<lambda>c7.
     andThen (currentInstructions c7) (\<lambda>ins7.
       changeOperand ce c7 jumpPos (int (length ins7))))))))))))"
| "Compile_stmt ce (LetStatement name val) = (\<lambda>c.
     case Define (symbols c) name of
       (symbol, t) \<Rightarrow>
         andThen (Compile_expr ce val (c\<lparr>symbols := t\<rparr>)) (\<lambda>c1.
           if SScope symbol = GlobalScope
           then emitOp ce c1 (copc ce OpSetGlobal) [SIndex symbol]
           else emitOp ce c1 (copc ce OpSetLocal) [SIndex symbol]))"
| "Compile_expr ce (Identifier name) = (\<lambda>c.
     case Resolve (symbols c) name of
       (None, t) \<Rightarrow> Err (Errorf ''Variable %s is undefined'' [ArgStr name])
     | (Some symbol, t) \<Rightarrow> loadSymbol ce (c\<lparr>symbols := t\<rparr>) symbol)"
| "Compile_expr ce (FunctionLiteral parameters body) = (\<lambda>c.
     let c1 = enterScope c;
         c2 = c1\<lparr>symbols := defineParameters (symbols c1) parameters\<rparr>
     in
     andThen (forEach (map (\<lambda>s. Compile_stmt ce s) body) c2) (\<lambda>c3.
     andThen (isEmitted c3 (copc ce OpPop)) (\<lambda>wasPop.
     andThen (if wasPop then changeEmittedTo ce c3 (copc ce OpReturnValue) else Ok c3) (\<lambda>c4.
     andThen (isEmitted c4 (copc ce OpReturnValue)) (\<lambda>wasReturnValue.
     andThen (if \<not> wasReturnValue then emitOp ce c4 (copc ce OpReturn) [] else Ok c4) (\<lambda>c5.
       let freeSymbols = Free (symbols c5);
           localCount = DefinitionCount (symbols c5)
       in
       andThen (leaveScope c5) (\<lambda>(ins, c6).
       andThen (forEach (map (\<lambda>s. \<lambda>c'. loadSymbol ce c' s) freeSymbols) c6) (\<lambda>c7.
         let compiled = \<lparr>Instructions = ins, LocalCount = localCount,
                         ParamCount = int (length parameters)\<rparr>
         in case addConstant c7 (Function compiled) of
              (fnIndex, c8) \<Rightarrow>
                emitOp ce c8 (copc ce OpClosure) [fnIndex, int (length freeSymbols)]))))))))"
| "Compile_stmt ce (ReturnStatement returnValue) = (\<lambda>c.
     andThen (Compile_expr ce returnValue c) (\<lambda>c1.
       emitOp ce c1 (copc ce OpReturnValue) []))"
| "Compile_expr ce (CallExpression function arguments) = (\<lambda>c.
     andThen (Compile_expr ce function c) (\<lambda>c1.
     andThen (forEach (map (\<lambda>a. Compile_expr ce a) arguments) c1) (\<lambda>c2.
       emitOp ce c2 (copc ce OpCall) [int (length arguments)])))"

text \<open>\<^verbatim>\<open>Compile\<close> on the program node.\<close>

definition Compile :: "cenv \<Rightarrow> Statement list \<Rightarrow> Compiler \<Rightarrow> Compiler result" where
  "Compile ce statements c = forEach (map (\<lambda>s. Compile_stmt ce s) statements) c"

subsection \<open>Notions for the properties of the compiler\<close>

text \<open>
  Every compiler that \<^verbatim>\<open>New\<close> or \<^verbatim>\<open>NewWithState\<close> builds, and every compiler that
  \<^verbatim>\<open>Compile\<close> reaches from one, has its current scope last in \<open>scopes\<close>.
\<close>

definition wfc :: "Compiler \<Rightarrow> bool" where
  "wfc c \<longleftrightarrow> scopes c \<noteq> [] \<and> currentScope c = int (length (scopes c)) - 1"

text \<open>The instructions and the bookkeeping of the current scope of such a compiler.\<close>

definition ins :: "Compiler \<Rightarrow> Instruction" where
  "ins c = instructions (last (scopes c))"

definition em :: "Compiler \<Rightarrow> Emitted" where
  "em c = emitted (last (scopes c))"

definition pe :: "Compiler \<Rightarrow> Emitted" where
  "pe c = prevEmitted (last (scopes c))"

text \<open>The bytes of a jump instruction with the given target.\<close>

definition jumpBytes :: "cenv \<Rightarrow> Opcode \<Rightarrow> int \<Rightarrow> Instruction" where
  "jumpBytes ce name target = copc ce name # putUint 2 target"

text \<open>
  \<open>lastAt ce c n\<close>: the bookkeeping \<open>emitted\<close> of the current scope is right. Its
  position is an index of the instructions, not below \<open>n\<close>, the byte there is its
  opcode, and when the opcode is \<^verbatim>\<open>Pop\<close> or \<^verbatim>\<open>ReturnValue\<close> (no operands) it is the
  last byte. \<open>prevAt ce c n\<close>: the same for \<open>prevEmitted\<close>, the instruction before
  the last one.
\<close>

definition lastAt :: "cenv \<Rightarrow> Compiler \<Rightarrow> int \<Rightarrow> bool" where
  "lastAt ce c n \<longleftrightarrow>
     n \<le> Position (em c) \<and> 0 \<le> Position (em c) \<and> Position (em c) < int (length (ins c)) \<and>
     ins c ! nat (Position (em c)) = Opcode (em c) \<and>
     (if Opcode (em c) = copc ce OpPop \<or> Opcode (em c) = copc ce OpReturnValue
      then Position (em c) = int (length (ins c)) - 1 else True)"

definition prevAt :: "cenv \<Rightarrow> Compiler \<Rightarrow> int \<Rightarrow> bool" where
  "prevAt ce c n \<longleftrightarrow>
     n \<le> Position (pe c) \<and> 0 \<le> Position (pe c) \<and> Position (pe c) < Position (em c) \<and>
     ins c ! nat (Position (pe c)) = Opcode (pe c) \<and>
     (if Opcode (pe c) = copc ce OpPop \<or> Opcode (pe c) = copc ce OpReturnValue
      then Position (pe c) = Position (em c) - 1 else True)"

text \<open>
  \<open>extends c c'\<close>: \<open>c'\<close> has the scopes of \<open>c\<close>, the enclosing ones unchanged, and
  the instructions of its current scope begin with those of \<open>c\<close>.
\<close>

definition extends :: "Compiler \<Rightarrow> Compiler \<Rightarrow> bool" where
  "extends c c' \<longleftrightarrow>
     wfc c' \<and> butlast (scopes c') = butlast (scopes c) \<and>
     take (length (ins c)) (ins c') = ins c \<and> length (ins c) \<le> length (ins c')"

subsection \<open>Notions used in the proofs\<close>

text \<open>The compiler \<open>c\<close> with its current scope replaced, and with only the instructions of
  its current scope replaced.\<close>

definition updLast :: "Compiler \<Rightarrow> Scope \<Rightarrow> Compiler" where
  "updLast c s = c\<lparr>scopes := butlast (scopes c) @ [s]\<rparr>"

definition withIns :: "Compiler \<Rightarrow> Instruction \<Rightarrow> Compiler" where
  "withIns c new = updLast c ((last (scopes c))\<lparr>instructions := new\<rparr>)"

text \<open>
  The bytes \<^verbatim>\<open>NewInstruction\<close> gives for operands that fit, and the compiler after an
  \<^verbatim>\<open>emit\<close> of such an instruction.
\<close>

definition encode :: "cenv \<Rightarrow> Opcode \<Rightarrow> int list \<Rightarrow> Instruction" where
  "encode ce name operands =
     copc ce name # concat (map (\<lambda>(w, v). putUint w v) (zip (operandWidths name) operands))"

definition afterEmit :: "cenv \<Rightarrow> Compiler \<Rightarrow> Opcode \<Rightarrow> int list \<Rightarrow> Compiler" where
  "afterEmit ce c name operands =
     updLast c \<lparr>instructions = ins c @ encode ce name operands,
                emitted = \<lparr>Opcode = copc ce name, Position = int (length (ins c))\<rparr>,
                prevEmitted = em c\<rparr>"

text \<open>
  The instructions of the current scope without their last byte when the last emitted
  instruction is a \<^verbatim>\<open>Pop\<close>: what \<^verbatim>\<open>preventPop\<close> leaves.
\<close>

definition stripped :: "cenv \<Rightarrow> Compiler \<Rightarrow> Instruction" where
  "stripped ce c =
     (if ins c \<noteq> [] \<and> Opcode (em c) = copc ce OpPop then butlast (ins c) else ins c)"

text \<open>
  The compiler in which the body of a function literal is compiled: after
  \<^verbatim>\<open>enterScope\<close> and the definition of the parameters.
\<close>

definition entered :: "Compiler \<Rightarrow> string list \<Rightarrow> Compiler" where
  "entered c parameters =
     (enterScope c)\<lparr>symbols := defineParameters (symbols (enterScope c)) parameters\<rparr>"

text \<open>
  What \<^verbatim>\<open>Compile\<close> keeps true: from a compiler whose current scope is the last one, a
  successful compilation of an expression extends the instructions of that scope and
  leaves the bookkeeping of the last emitted instruction right; a statement leaves the
  bookkeeping of the instruction before it right as well.
\<close>

definition Eok :: "cenv \<Rightarrow> Expression \<Rightarrow> bool" where
  "Eok ce e \<longleftrightarrow>
     (\<forall>c c'. wfc c \<longrightarrow> Compile_expr ce e c = Ok c' \<longrightarrow>
        extends c c' \<and> lastAt ce c' (int (length (ins c))))"

definition Sok :: "cenv \<Rightarrow> Statement \<Rightarrow> bool" where
  "Sok ce s \<longleftrightarrow>
     (\<forall>c c'. wfc c \<longrightarrow> Compile_stmt ce s c = Ok c' \<longrightarrow>
        extends c c' \<and> lastAt ce c' (int (length (ins c))) \<and> prevAt ce c' (int (length (ins c))))"

text \<open>
  \<^verbatim>\<open>Compile\<close> of a program on a fresh compiler, followed by \<^verbatim>\<open>Bytecode()\<close>.
\<close>

definition freshBytecode :: "cenv \<Rightarrow> Statement list \<Rightarrow> Bytecode result" where
  "freshBytecode ce program = andThen (Compile ce program (New_compiler ce)) Bytecode_of"

text \<open>
  An instance of the parameters of the compiler for evaluating it: the numbering
  \<open>iota\<close>, no builtins, and a \<^verbatim>\<open>String()\<close> that is constant. The theorem on hash
  literals replaces that \<^verbatim>\<open>String()\<close> by an arbitrary one.
\<close>

definition cenv_iota :: cenv where
  "cenv_iota = \<lparr>copc = iota, nodeString = (\<lambda>e. []), builtinNames = []\<rparr>"

text \<open>
  The compilers that result from \<^verbatim>\<open>if (true) { 10 }\<close> and from \<^verbatim>\<open>fn(a) { a + 1 }\<close>
  on a fresh compiler.
\<close>

definition if_example_result :: Compiler where
  "if_example_result =
     \<lparr>constants_c = [Integer 10], symbols = SymbolTable [] 0 [] None,
      scopes = [\<lparr>instructions = [iota OpTrue, iota OpJumpNotTruthy, 0, 10, iota OpConstant, 0, 0,
                                  iota OpJump, 0, 11, iota OpNull],
                 emitted = \<lparr>Opcode = iota OpNull, Position = 10\<rparr>,
                 prevEmitted = \<lparr>Opcode = iota OpJump, Position = 7\<rparr>\<rparr>],
      currentScope = 0\<rparr>"

definition fn_example_result :: Compiler where
  "fn_example_result =
     \<lparr>constants_c =
        [Integer 1,
         Function \<lparr>Instructions = [iota OpGetLocal, 0, iota OpConstant, 0, 0, iota OpAdd,
                                   iota OpReturnValue],
                   LocalCount = 1, ParamCount = 1\<rparr>],
      symbols = SymbolTable [] 0 [] None,
      scopes = [\<lparr>instructions = [iota OpClosure, 0, 1, 0],
                 emitted = \<lparr>Opcode = iota OpClosure, Position = 0\<rparr>,
                 prevEmitted = \<lparr>Opcode = 0, Position = 0\<rparr>\<rparr>],
      currentScope = 0\<rparr>"

section \<open>Properties of the virtual machine\<close>

subsection \<open>Auxiliary facts\<close>

lemma inj_iota: "inj iota"
proof (rule injI)
  fix x y assume "iota x = iota y"
  then show "x = y" by (cases x; cases y; simp)
qed

lemma inj_env_iota: "inj (opc env_iota)"
  by (simp add: env_iota_def inj_iota)

lemma andThen_simps [simp]:
  "andThen (Ok x) f = f x" "andThen (Err er) f = Err er" "andThen Panic f = Panic"
  by (simp_all add: andThen_def)

lemma step_fetch: "fetch vm = Ok (p, op, operands) \<Longrightarrow> step e vm = dispatch e (setPointer vm p) op operands"
  by (simp add: step_def)

lemma dispatch_Jump: "inj (opc e) \<Longrightarrow> dispatch e vm (opc e OpJump) operands = case_Jump vm operands"
  by (simp add: dispatch_def inj_eq)

lemma dispatch_JumpNotTruthy:
  "inj (opc e) \<Longrightarrow> dispatch e vm (opc e OpJumpNotTruthy) operands = case_JumpNotTruthy vm operands"
  by (simp add: dispatch_def inj_eq)

lemma dispatch_Call: "inj (opc e) \<Longrightarrow> dispatch e vm (opc e OpCall) operands = case_Call vm"
  by (simp add: dispatch_def inj_eq)

lemma dispatch_binary:
  "inj (opc e) \<Longrightarrow> op \<in> {OpAdd, OpSub, OpMul, OpDiv} \<Longrightarrow>
   dispatch e vm (opc e op) operands = executeBinaryOp (opc e) vm (opc e op)"
  by (auto simp add: dispatch_def inj_eq)

lemma dispatch_unhandled:
  "op \<notin> opc e ` set handled \<Longrightarrow> dispatch e vm op operands = Ok vm"
  by (simp add: dispatch_def handled_def)

lemma fetch_current:
  "fetch vm = Ok (p, op, operands) \<Longrightarrow>
   \<exists>f rest. flist (frames vm) = f # rest \<and> p = pointer f + 1 \<and> 0 \<le> p \<and>
     p < int (length (Instructions (fn f))) \<and> op = Instructions (fn f) ! nat p \<and>
     operands = drop (nat (p + 1)) (Instructions (fn f))"
  by (auto simp add: fetch_def current_def Let_def split: list.splits if_splits)

lemma addPointer_setPointer:
  "flist (frames vm) \<noteq> [] \<Longrightarrow> addPointer (setPointer vm p) n = setPointer vm (p + n)"
  by (cases "flist (frames vm)") (simp_all add: addPointer_def setPointer_def)

lemma isTruthy_iff: "isTruthy d \<longleftrightarrow> d \<noteq> Some (Boolean False) \<and> d \<noteq> Some Null"
  by (cases d rule: isTruthy.cases) auto

lemma setPointer_setPointer [simp]: "setPointer (setPointer vm p) q = setPointer vm q"
  by (cases "flist (frames vm)") (simp_all add: setPointer_def)

lemma stack_setPointer [simp]: "stack (setPointer vm p) = stack vm"
  by (cases "flist (frames vm)") (simp_all add: setPointer_def)

lemma constants_setPointer [simp]: "constants (setPointer vm p) = constants vm"
  by (cases "flist (frames vm)") (simp_all add: setPointer_def)

lemma globals_setPointer [simp]: "globals (setPointer vm p) = globals vm"
  by (cases "flist (frames vm)") (simp_all add: setPointer_def)

lemma flist_setPointer:
  "flist (frames vm) = f # rest \<Longrightarrow> flist (frames (setPointer vm p)) = f\<lparr>pointer := p\<rparr> # rest"
  by (simp add: setPointer_def)

lemma flimit_setPointer [simp]: "flimit (frames (setPointer vm p)) = flimit (frames vm)"
  by (cases "flist (frames vm)") (simp_all add: setPointer_def)

lemma length_flist_setPointer [simp]:
  "length (flist (frames (setPointer vm p))) = length (flist (frames vm))"
  by (cases "flist (frames vm)") (simp_all add: setPointer_def)

lemma popVM_eq:
  "0 < sp (stack vm) \<Longrightarrow> sp (stack vm) \<le> int (length (items (stack vm))) \<Longrightarrow>
   popVM vm = Ok (items (stack vm) ! nat (sp (stack vm) - 1), setSp vm (sp (stack vm) - 1))"
  by (simp add: popVM_def pop_def setSp_def)

lemma stack_setSp [simp]: "stack (setSp vm n) = (stack vm)\<lparr>sp := n\<rparr>"
  by (simp add: setSp_def)

lemma top_eq:
  "0 < sp s \<Longrightarrow> sp s \<le> int (length (items s)) \<Longrightarrow> top s = Ok (items s ! nat (sp s - 1))"
  by (simp add: top_def)

lemma executeBinaryOp_eq:
  assumes "2 \<le> sp (stack vm)" and "sp (stack vm) \<le> int (length (items (stack vm)))"
    and "items (stack vm) ! nat (sp (stack vm) - 1) = Some r"
    and "items (stack vm) ! nat (sp (stack vm) - 2) = Some l"
  shows "executeBinaryOp oc vm op =
     (if Type l = INTEGER_TYPE \<and> Type r = INTEGER_TYPE
      then executeBinaryIntegerOp oc (setSp vm (sp (stack vm) - 2)) op l r
      else Err (Errorf ''unsupported types for binary operation: %s %s''
                  [ArgType (Type l), ArgType (Type r)]))"
proof -
  have 1: "popVM vm = Ok (Some r, setSp vm (sp (stack vm) - 1))"
    using assms by (simp add: popVM_eq)
  have 2: "popVM (setSp vm (sp (stack vm) - 1)) = Ok (Some l, setSp vm (sp (stack vm) - 2))"
    using assms by (simp add: popVM_eq setSp_def)
  show ?thesis by (simp add: executeBinaryOp_def 1 2)
qed

lemma step_Call:
  assumes "inj (opc e)" and "fetch vm = Ok (p, opc e OpCall, operands)"
  shows "step e vm = case_Call (setPointer vm p)"
  using assms by (simp add: step_fetch dispatch_Call)

lemma case_Call_eq:
  assumes "flist (frames vm) \<noteq> []" and "0 < sp (stack vm)"
    and "sp (stack vm) \<le> int (length (items (stack vm)))"
  shows "case_Call (setPointer vm p) =
     (case items (stack vm) ! nat (sp (stack vm) - 1) of
        Some (Function f) \<Rightarrow>
          if length (flist (frames vm)) \<ge> flimit (frames vm) then Panic
          else Ok ((setPointer vm (p + 1))
                 \<lparr>frames := (frames (setPointer vm (p + 1)))
                     \<lparr>flist := \<lparr>fn = f, pointer = - 1, framePointer = sp (stack vm)\<rparr>
                                # flist (frames (setPointer vm (p + 1)))\<rparr>,
                  stack := (stack vm)\<lparr>sp := sp (stack vm) + LocalCount f\<rparr>\<rparr>)
      | _ \<Rightarrow> Err (Errorf ''calling non-function'' []))"
  using assms
  by (simp add: case_Call_def addPointer_setPointer top_eq fpush_def NewFrame_def setSp_def Let_def
      split: option.splits Data.splits)

lemma Run_unhandled:
  assumes "\<forall>b \<in> set (Instructions (fn f)). b \<notin> opc e ` set handled"
  shows "flist (frames vm) = f\<lparr>pointer := q\<rparr> # rest \<Longrightarrow> - 1 \<le> q \<Longrightarrow>
         q \<le> int (length (Instructions (fn f))) - 1 \<Longrightarrow> n = nat (int (length (Instructions (fn f))) - 1 - q) \<Longrightarrow>
         Run e vm = Some (Ok (setPointer vm (int (length (Instructions (fn f))) - 1)))"
proof (induction n arbitrary: vm q)
  case 0
  then have q: "q = int (length (Instructions (fn f))) - 1" by simp
  have "setPointer vm q = vm" using 0(1) by (simp add: setPointer_def)
  then show ?case using 0(1) q
    by (subst Run.simps) (simp add: current_def)
next
  case (Suc n)
  then have lt: "q < int (length (Instructions (fn f))) - 1" by simp
  let ?ins = "Instructions (fn f)"
  have f: "fetch vm = Ok (q + 1, ?ins ! nat (q + 1), drop (nat (q + 2)) ?ins)"
    using Suc(2,3) lt by (simp add: fetch_def current_def Let_def add.commute)
  have "?ins ! nat (q + 1) \<in> set ?ins" using Suc(3) lt by simp
  then have un: "?ins ! nat (q + 1) \<notin> opc e ` set handled" using assms by blast
  have st: "step e vm = Ok (setPointer vm (q + 1))"
    by (simp add: step_fetch [OF f] dispatch_unhandled [OF un])
  have fl: "flist (frames (setPointer vm (q + 1))) = f\<lparr>pointer := q + 1\<rparr> # rest"
    using Suc(2) by (simp add: setPointer_def)
  have ih: "Run e (setPointer vm (q + 1)) =
      Some (Ok (setPointer (setPointer vm (q + 1)) (int (length ?ins) - 1)))"
    using Suc(3-5) lt by (intro Suc.IH [OF fl]) simp_all
  show ?case using Suc(2) lt
    by (subst Run.simps) (simp add: current_def st ih)
qed

lemma unhandled_names:
  "inj (opc e) \<Longrightarrow> op \<in> {OpGetBuiltin, OpGetFree, OpClosure} \<Longrightarrow> opc e op \<notin> opc e ` set handled"
  by (auto simp add: handled_def inj_eq)

lemmas eval_defs = example_vm_def New_def NewFrame_def NewStack_def fetch_def current_def
  StackLimit_def FrameLimit_def GlobalsLimit_def Let_def ReadUint16_def ReadUint8_def
  setPointer_def popVM_def pop_def one_param_fn_def nth_append

subsection \<open>The claims about the virtual machine and the opcode table\<close>

text \<open>
  Claim C8, as the code has it. For every byte \<open>b\<close>, \<^verbatim>\<open>Lookup(b)\<close> returns the
  Operation (name and operand widths) of \<open>b\<close> when \<open>b\<close> is a key of the table
  \<^verbatim>\<open>operations\<close>, which holds \<^verbatim>\<open>Constant\<close> (one operand of width 2) and \<^verbatim>\<open>Add\<close>
  (no operand); for every other byte it returns exactly the error
  \<^verbatim>\<open>Undefined Opcode: <n>\<close>, where \<open>n\<close> is the numeric value of the byte.
\<close>

theorem Lookup_result:
  assumes "oc OpConstant \<noteq> oc OpAdd"
  shows "Lookup oc b =
     (if b = oc OpConstant then Ok \<lparr>Name = ''Constant'', OperandSizes = [2]\<rparr>
      else if b = oc OpAdd then Ok \<lparr>Name = ''Add'', OperandSizes = []\<rparr>
      else Err (Errorf ''Undefined Opcode: %d'' [ArgInt (uint b)]))"
  using assms by (simp add: Lookup_def operations_def)

text \<open>The theorem at the bytes 0 (\<^verbatim>\<open>Constant\<close>), 2 (\<^verbatim>\<open>Add\<close>) and 200.\<close>

theorem Lookup_result_witness:
  "iota OpConstant \<noteq> iota OpAdd
   \<and> Lookup iota 0 = Ok \<lparr>Name = ''Constant'', OperandSizes = [2]\<rparr>
   \<and> Lookup iota 2 = Ok \<lparr>Name = ''Add'', OperandSizes = []\<rparr>
   \<and> Lookup iota 200 = Err (Errorf ''Undefined Opcode: %d'' [ArgInt 200])"
  using Lookup_result [of iota 0] Lookup_result [of iota 2] Lookup_result [of iota 200] by simp

text \<open>
  Claim C8 as stated fails: \<^verbatim>\<open>Pop\<close> is an opcode of the encoding table, and its lookup
  is the error.
\<close>

theorem Lookup_result_counterexample:
  "Lookup iota (iota OpPop) = Err (Errorf ''Undefined Opcode: %d'' [ArgInt 1])"
  by (simp add: Lookup_def operations_def)

text \<open>
  Claim C7. When the iteration reads \<^verbatim>\<open>Jump\<close> with operand \<open>target\<close>, it leaves the
  instruction pointer at \<open>target - 1\<close>, so that the increment of the next iteration
  lands on \<open>target\<close>. When it reads \<^verbatim>\<open>JumpNotTruthy\<close>, it first moves the pointer
  past the two operand bytes (to \<open>p + 2\<close>), pops the condition, and sets the pointer
  to \<open>target - 1\<close> exactly when the condition is not truthy. A value is truthy unless
  it is the Boolean false or Null.
\<close>

theorem jump_targets:
  assumes "inj (opc e)" and "fetch vm = Ok (p, op, operands)"
    and "ReadUint16 operands = Ok target"
  shows "(op = opc e OpJump \<longrightarrow> step e vm = Ok (setPointer vm (target - 1)))
       \<and> (op = opc e OpJumpNotTruthy \<longrightarrow>
            (\<forall>condition vm'. popVM (setPointer vm (p + 2)) = Ok (condition, vm') \<longrightarrow>
               step e vm = Ok (if isTruthy condition then vm' else setPointer vm' (target - 1))))
       \<and> (\<forall>d. isTruthy d \<longleftrightarrow> d \<noteq> Some (Boolean False) \<and> d \<noteq> Some Null)"
proof -
  from fetch_current [OF assms(2)] have ne: "flist (frames vm) \<noteq> []" by auto
  have j: "op = opc e OpJump \<longrightarrow> step e vm = Ok (setPointer vm (target - 1))"
    using assms by (simp add: step_fetch dispatch_Jump case_Jump_def)
  have n: "op = opc e OpJumpNotTruthy \<longrightarrow>
            (\<forall>condition vm'. popVM (setPointer vm (p + 2)) = Ok (condition, vm') \<longrightarrow>
               step e vm = Ok (if isTruthy condition then vm' else setPointer vm' (target - 1)))"
    using assms ne
    by (simp add: step_fetch dispatch_JumpNotTruthy case_JumpNotTruthy_def addPointer_setPointer)
  show ?thesis using j n isTruthy_iff by blast
qed

text \<open>
  The theorem on \<^verbatim>\<open>Jump 4\<close> and on \<^verbatim>\<open>JumpNotTruthy 4\<close> with Null on the stack: both
  leave the pointer at 3.
\<close>

theorem jump_targets_witness:
  "inj (opc env_iota)
   \<and> fetch (example_vm [iota OpJump, 0, 4, iota OpTrue, iota OpNull] [] (- 1) [])
       = Ok (0, opc env_iota OpJump, [0, 4, iota OpTrue, iota OpNull])
   \<and> ReadUint16 [0, 4, iota OpTrue, iota OpNull] = Ok 4
   \<and> step env_iota (example_vm [iota OpJump, 0, 4, iota OpTrue, iota OpNull] [] (- 1) [])
       = Ok (example_vm [iota OpJump, 0, 4, iota OpTrue, iota OpNull] [] 3 [])
   \<and> fetch (example_vm [iota OpJumpNotTruthy, 0, 4, iota OpTrue, iota OpNull] [] (- 1) [Some Null])
       = Ok (0, opc env_iota OpJumpNotTruthy, [0, 4, iota OpTrue, iota OpNull])
   \<and> step env_iota (example_vm [iota OpJumpNotTruthy, 0, 4, iota OpTrue, iota OpNull] [] (- 1) [Some Null])
       = Ok ((example_vm [iota OpJumpNotTruthy, 0, 4, iota OpTrue, iota OpNull] [] 3 [Some Null])
               \<lparr>stack := \<lparr>items = Some Null # replicate (StackLimit - 1) None, sp = 0\<rparr>\<rparr>)"
  using jump_targets [of env_iota "example_vm [iota OpJump, 0, 4, iota OpTrue, iota OpNull] [] (- 1) []"
              0 "iota OpJump" "[0, 4, iota OpTrue, iota OpNull]" 4]
        jump_targets [of env_iota
              "example_vm [iota OpJumpNotTruthy, 0, 4, iota OpTrue, iota OpNull] [] (- 1) [Some Null]"
              0 "iota OpJumpNotTruthy" "[0, 4, iota OpTrue, iota OpNull]" 4]
  by (simp add: inj_env_iota eval_defs) (simp add: env_iota_def)

text \<open>
  Claim C3, as the code has it. For \<^verbatim>\<open>Add\<close>, as for \<^verbatim>\<open>Sub\<close>, \<^verbatim>\<open>Mul\<close> and
  \<^verbatim>\<open>Div\<close>: when the two popped operands (right on top, left below) are not both
  Integers, two Strings included, the VM fails with the error
  \<^verbatim>\<open>unsupported types for binary operation: <l> <r>\<close>, \<open>l\<close> and \<open>r\<close> the type tags
  of the left and the right operand. No String is pushed.
\<close>

theorem binary_op_unsupported_types:
  assumes "inj (opc e)" and "fetch vm = Ok (p, opc e op, operands)"
    and "op \<in> {OpAdd, OpSub, OpMul, OpDiv}"
    and "2 \<le> sp (stack vm)" and "sp (stack vm) \<le> int (length (items (stack vm)))"
    and "items (stack vm) ! nat (sp (stack vm) - 1) = Some r"
    and "items (stack vm) ! nat (sp (stack vm) - 2) = Some l"
    and "\<not> (Type l = INTEGER_TYPE \<and> Type r = INTEGER_TYPE)"
  shows "step e vm = Err (Errorf ''unsupported types for binary operation: %s %s''
                            [ArgType (Type l), ArgType (Type r)])"
proof -
  have "step e vm = executeBinaryOp (opc e) (setPointer vm p) (opc e op)"
    using assms(1-3) by (simp only: step_fetch dispatch_binary)
  also have "\<dots> = Err (Errorf ''unsupported types for binary operation: %s %s''
                            [ArgType (Type l), ArgType (Type r)])"
    using assms(4-8) by (subst executeBinaryOp_eq [where l = l and r = r]) auto
  finally show ?thesis .
qed

text \<open>The theorem on \<^verbatim>\<open>Sub\<close> with a String below an Integer.\<close>

theorem binary_op_unsupported_types_witness:
  "inj (opc env_iota)
   \<and> fetch (example_vm [iota OpSub] [] (- 1) [Some (String ''ape''), Some (Integer 1)])
       = Ok (0, opc env_iota OpSub, [])
   \<and> step env_iota (example_vm [iota OpSub] [] (- 1) [Some (String ''ape''), Some (Integer 1)])
       = Err (Errorf ''unsupported types for binary operation: %s %s''
                [ArgType STRING_TYPE, ArgType INTEGER_TYPE])"
  using binary_op_unsupported_types [of env_iota "example_vm [iota OpSub] [] (- 1) [Some (String ''ape''), Some (Integer 1)]"
              0 OpSub "[]" "Integer 1" "String ''ape''"]
  by (simp add: inj_env_iota eval_defs) (simp add: env_iota_def)

text \<open>
  Claim C3 as stated fails: \<^verbatim>\<open>Add\<close> of the Strings \<open>a\<close> and \<open>b\<close> does not push
  the String \<open>ab\<close>, it is the error of unsupported types.
\<close>

theorem binary_op_unsupported_types_counterexample:
  "fetch (example_vm [iota OpAdd] [] (- 1) [Some (String ''a''), Some (String ''b'')])
       = Ok (0, opc env_iota OpAdd, [])
   \<and> step env_iota (example_vm [iota OpAdd] [] (- 1) [Some (String ''a''), Some (String ''b'')])
       = Err (Errorf ''unsupported types for binary operation: %s %s''
                [ArgType STRING_TYPE, ArgType STRING_TYPE])"
  by (simp add: eval_defs step_def dispatch_def env_iota_def executeBinaryOp_def)

text \<open>
  Claim C9. When \<^verbatim>\<open>Div\<close> executes with two Integers on top of the stack: if the right
  operand is 0 the iteration panics (Go's integer division by zero), which is no error
  value returned by \<^verbatim>\<open>Run\<close>; if the right operand is not 0, the two operands are
  replaced by one Integer, the quotient truncated toward zero (the quotient of the
  absolute values, with the product of the signs), in 64 bits.
\<close>

theorem div_by_zero_unguarded:
  assumes "inj (opc e)" and "fetch vm = Ok (p, opc e OpDiv, operands)"
    and "2 \<le> sp (stack vm)" and "sp (stack vm) \<le> int (length (items (stack vm)))"
    and "items (stack vm) ! nat (sp (stack vm) - 1) = Some (Integer rightValue)"
    and "items (stack vm) ! nat (sp (stack vm) - 2) = Some (Integer leftValue)"
  shows "(rightValue = 0 \<longrightarrow> step e vm = Panic)
       \<and> (rightValue \<noteq> 0 \<longrightarrow>
            step e vm =
              Ok ((setPointer vm p)
                    \<lparr>stack := \<lparr>items = (items (stack vm))
                                 [nat (sp (stack vm) - 2) :=
                                    Some (Integer (word_of_int
                                      (sgn (sint leftValue) * sgn (sint rightValue) *
                                       (\<bar>sint leftValue\<bar> div \<bar>sint rightValue\<bar>))))],
                               sp = sp (stack vm) - 1\<rparr>\<rparr>))"
proof -
  have s: "step e vm = executeBinaryOp (opc e) (setPointer vm p) (opc e OpDiv)"
    using assms(1-2) by (simp only: step_fetch dispatch_binary insert_iff simp_thms)
  have b: "executeBinaryOp (opc e) (setPointer vm p) (opc e OpDiv) =
        executeBinaryIntegerOp (opc e) (setSp (setPointer vm p) (sp (stack vm) - 2)) (opc e OpDiv)
          (Integer leftValue) (Integer rightValue)"
    using assms(3-6)
    by (subst executeBinaryOp_eq [where l = "Integer leftValue" and r = "Integer rightValue"])
       simp_all
  have d: "opc e OpDiv \<noteq> opc e OpAdd" "opc e OpDiv \<noteq> opc e OpSub" "opc e OpDiv \<noteq> opc e OpMul"
    using assms(1) by (simp_all add: inj_eq)
  show ?thesis
    using assms(3,4)
    by (simp add: s b d executeBinaryIntegerOp_def pushVM_def push_def signed_divide_int_def
        setSp_def)
qed

text \<open>The theorem on \<open>7 / 0\<close> (panic) and on \<open>-7 / 2 = -3\<close>.\<close>

theorem div_by_zero_unguarded_witness:
  "inj (opc env_iota)
   \<and> fetch (example_vm [iota OpDiv] [] (- 1) [Some (Integer 7), Some (Integer 0)])
       = Ok (0, opc env_iota OpDiv, [])
   \<and> step env_iota (example_vm [iota OpDiv] [] (- 1) [Some (Integer 7), Some (Integer 0)]) = Panic
   \<and> fetch (example_vm [iota OpDiv] [] (- 1) [Some (Integer (- 7)), Some (Integer 2)])
       = Ok (0, opc env_iota OpDiv, [])
   \<and> step env_iota (example_vm [iota OpDiv] [] (- 1) [Some (Integer (- 7)), Some (Integer 2)])
       = Ok (example_vm [iota OpDiv] [] 0 [Some (Integer (- 3))]
              \<lparr>stack := \<lparr>items = Some (Integer (- 3)) # Some (Integer 2)
                                   # replicate (StackLimit - 2) None,
                          sp = 1\<rparr>\<rparr>)"
  using div_by_zero_unguarded [of env_iota "example_vm [iota OpDiv] [] (- 1) [Some (Integer 7), Some (Integer 0)]"
              0 "[]" 0 7]
        div_by_zero_unguarded [of env_iota "example_vm [iota OpDiv] [] (- 1) [Some (Integer (- 7)), Some (Integer 2)]"
              0 "[]" 2 "- 7"]
  by (simp add: inj_env_iota eval_defs) (simp add: env_iota_def)

text \<open>
  Claim C1, as the code has it. When a \<^verbatim>\<open>Call\<close> instruction with operand
  \<open>argc = 0\<close> executes and the callee, at \<open>stack[sp - argc - 1]\<close>, is a
  CompiledFunction \<open>f\<close>, the VM skips the operand byte, pushes a new frame for \<open>f\<close>
  whose frame pointer is \<open>sp - argc\<close>, sets \<open>sp\<close> to the frame pointer plus
  \<^verbatim>\<open>LocalCount\<close> of \<open>f\<close>, and the next iteration reads the first instruction of
  \<open>f\<close>. The parameter count of \<open>f\<close> is not compared with \<open>argc\<close>: no hypothesis
  constrains \<^verbatim>\<open>ParamCount\<close>.
\<close>

theorem call_pushes_frame:
  assumes "inj (opc e)" and "fetch vm = Ok (p, opc e OpCall, operands)"
    and "ReadUint8 operands = Ok argc" and "argc = 0"
    and "0 < sp (stack vm) - argc" and "sp (stack vm) \<le> int (length (items (stack vm)))"
    and "items (stack vm) ! nat (sp (stack vm) - argc - 1) = Some (Function f)"
    and "length (flist (frames vm)) < flimit (frames vm)"
  shows "\<exists>vm'. step e vm = Ok vm'
       \<and> vm' = (setPointer vm (p + 1))
                 \<lparr>frames := (frames (setPointer vm (p + 1)))
                     \<lparr>flist := \<lparr>fn = f, pointer = - 1, framePointer = sp (stack vm) - argc\<rparr>
                                # flist (frames (setPointer vm (p + 1)))\<rparr>,
                  stack := (stack vm)\<lparr>sp := (sp (stack vm) - argc) + LocalCount f\<rparr>\<rparr>
       \<and> fetch vm' =
           (case Instructions f of [] \<Rightarrow> Panic | b # bs \<Rightarrow> Ok (0, b, bs))"
proof -
  from fetch_current [OF assms(2)] have ne: "flist (frames vm) \<noteq> []" by auto
  have "step e vm = case_Call (setPointer vm p)" using assms(1,2) by (rule step_Call)
  then show ?thesis
    using assms(4-8) ne
    by (simp add: case_Call_eq fetch_def current_def Let_def split: list.splits)
qed

text \<open>The theorem on a call of a function with two locals: \<open>sp\<close> goes from 1 to 3.\<close>

theorem call_pushes_frame_witness:
  "inj (opc env_iota)
   \<and> fetch (example_vm [iota OpCall, 0] [] (- 1) [Some (Function two_locals_fn)])
       = Ok (0, opc env_iota OpCall, [0])
   \<and> ReadUint8 [0] = Ok 0
   \<and> step env_iota (example_vm [iota OpCall, 0] [] (- 1) [Some (Function two_locals_fn)])
       = Ok ((example_vm [iota OpCall, 0] [] 1 [Some (Function two_locals_fn)])
              \<lparr>frames := \<lparr>flist = [\<lparr>fn = two_locals_fn, pointer = - 1, framePointer = 1\<rparr>,
                                    \<lparr>fn = \<lparr>Instructions = [iota OpCall, 0], LocalCount = 0,
                                            ParamCount = 0\<rparr>,
                                     pointer = 1, framePointer = 0\<rparr>],
                           flimit = FrameLimit\<rparr>,
                stack := \<lparr>items = Some (Function two_locals_fn) # replicate (StackLimit - 1) None,
                          sp = 3\<rparr>\<rparr>)"
  using call_pushes_frame [of env_iota "example_vm [iota OpCall, 0] [] (- 1) [Some (Function two_locals_fn)]"
              0 "[0]" 0 two_locals_fn]
  by (simp add: inj_env_iota eval_defs two_locals_fn_def) (simp add: env_iota_def)

text \<open>
  Claim C1 as stated fails. A call with \<open>argc = 0\<close> of a function with one parameter
  is no arity error: the iteration succeeds. And a call with \<open>argc = 1\<close> of that
  function, the function at \<open>stack[sp - argc - 1]\<close> and the argument above it, pushes
  no frame: the VM takes the argument on top of the stack for the callee and fails.
\<close>

theorem call_pushes_frame_counterexample:
  "fetch (example_vm [iota OpCall, 0] [] (- 1) [Some (Function one_param_fn)])
       = Ok (0, opc env_iota OpCall, [0])
   \<and> ReadUint8 [0] = Ok 0
   \<and> ParamCount one_param_fn = 1
   \<and> isOk (step env_iota (example_vm [iota OpCall, 0] [] (- 1) [Some (Function one_param_fn)]))
   \<and> fetch (example_vm [iota OpCall, 1] [] (- 1) [Some (Function one_param_fn), Some (Integer 5)])
       = Ok (0, opc env_iota OpCall, [1])
   \<and> ReadUint8 [1] = Ok 1
   \<and> step env_iota (example_vm [iota OpCall, 1] [] (- 1)
                        [Some (Function one_param_fn), Some (Integer 5)])
       = Err (Errorf ''calling non-function'' [])"
  by (simp add: eval_defs step_def dispatch_def env_iota_def case_Call_def addPointer_def
      top_def fpush_def setSp_def isOk_def)

text \<open>
  Claim C2, as the code has it. When a \<^verbatim>\<open>Call\<close> instruction with operand
  \<open>argc = 0\<close> executes, the callee is the value at \<open>stack[sp - argc - 1]\<close>. Of the
  values, only a CompiledFunction is accepted; every other value, a Closure and a
  Builtin included, fails with the error \<^verbatim>\<open>calling non-function\<close>.
\<close>

theorem call_accepts_only_functions:
  assumes "inj (opc e)" and "fetch vm = Ok (p, opc e OpCall, operands)"
    and "ReadUint8 operands = Ok argc" and "argc = 0"
    and "0 < sp (stack vm) - argc" and "sp (stack vm) \<le> int (length (items (stack vm)))"
    and "items (stack vm) ! nat (sp (stack vm) - argc - 1) = callee"
    and "length (flist (frames vm)) < flimit (frames vm)"
  shows "(case callee of
            Some (Function f) \<Rightarrow> isOk (step e vm)
          | _ \<Rightarrow> step e vm = Err (Errorf ''calling non-function'' []))"
proof -
  from fetch_current [OF assms(2)] have ne: "flist (frames vm) \<noteq> []" by auto
  have "step e vm = case_Call (setPointer vm p)" using assms(1,2) by (rule step_Call)
  then show ?thesis
    using assms(4-8) ne
    by (simp add: case_Call_eq isOk_def split: option.splits Data.splits)
qed

text \<open>The theorem on a Builtin (refused) and on a CompiledFunction (accepted).\<close>

theorem call_accepts_only_functions_witness:
  "inj (opc env_iota)
   \<and> fetch (example_vm [iota OpCall, 0] [] (- 1) [Some (Builtin 0)])
       = Ok (0, opc env_iota OpCall, [0])
   \<and> ReadUint8 [0] = Ok 0
   \<and> step env_iota (example_vm [iota OpCall, 0] [] (- 1) [Some (Builtin 0)])
       = Err (Errorf ''calling non-function'' [])
   \<and> isOk (step env_iota (example_vm [iota OpCall, 0] [] (- 1) [Some (Function two_locals_fn)]))"
  using call_accepts_only_functions [of env_iota "example_vm [iota OpCall, 0] [] (- 1) [Some (Builtin 0)]"
              0 "[0]" 0 "Some (Builtin 0)"]
        call_accepts_only_functions [of env_iota "example_vm [iota OpCall, 0] [] (- 1) [Some (Function two_locals_fn)]"
              0 "[0]" 0 "Some (Function two_locals_fn)"]
  by (simp add: inj_env_iota eval_defs) (simp add: env_iota_def)

text \<open>
  Claim C2 as stated fails. Calling a Closure fails as a call of a non-function. And
  with \<open>argc = 1\<close> and a CompiledFunction at \<open>stack[sp - argc - 1]\<close>, the call fails
  as a call of a non-function too: the VM reads the callee at \<open>stack[sp - 1]\<close>.
\<close>

theorem call_accepts_only_functions_counterexample:
  "fetch (example_vm [iota OpCall, 0] [] (- 1) [Some (Closure two_locals_fn [])])
       = Ok (0, opc env_iota OpCall, [0])
   \<and> step env_iota (example_vm [iota OpCall, 0] [] (- 1) [Some (Closure two_locals_fn [])])
       = Err (Errorf ''calling non-function'' [])
   \<and> fetch (example_vm [iota OpCall, 1] [] (- 1) [Some (Function two_locals_fn), Some Null])
       = Ok (0, opc env_iota OpCall, [1])
   \<and> ReadUint8 [1] = Ok 1
   \<and> step env_iota (example_vm [iota OpCall, 1] [] (- 1)
                        [Some (Function two_locals_fn), Some Null])
       = Err (Errorf ''calling non-function'' [])"
  by (simp add: eval_defs step_def dispatch_def env_iota_def case_Call_def addPointer_def
      top_def)

text \<open>
  Claim C10. The switch of \<^verbatim>\<open>Run\<close> has no default branch. When no byte of the
  instruction stream \<open>code\<close> is the opcode of a \<^verbatim>\<open>case\<close>, an iteration that reads
  one of these bytes only advances the instruction pointer by one, and \<^verbatim>\<open>Run\<close> on
  the VM of \<open>code\<close> returns nil, with the pointer on the last byte. With a numbering
  without repetitions, \<^verbatim>\<open>GetBuiltin\<close>, \<^verbatim>\<open>GetFree\<close> and \<^verbatim>\<open>Closure\<close> are such bytes,
  as is every byte that is no opcode at all.
\<close>

theorem switch_has_no_default:
  assumes "\<forall>b \<in> set code. b \<notin> opc e ` set handled"
  shows "(\<forall>vm p op operands. fetch vm = Ok (p, op, operands) \<longrightarrow> op \<in> set code \<longrightarrow>
            step e vm = Ok (setPointer vm p))
       \<and> Run e (New \<lparr>bInstructions = code, bConstants = cs\<rparr>)
           = Some (Ok (setPointer (New \<lparr>bInstructions = code, bConstants = cs\<rparr>)
                         (int (length code) - 1)))
       \<and> (inj (opc e) \<longrightarrow>
            opc e OpGetBuiltin \<notin> opc e ` set handled \<and> opc e OpGetFree \<notin> opc e ` set handled
            \<and> opc e OpClosure \<notin> opc e ` set handled)"
proof -
  have a: "\<forall>vm p op operands. fetch vm = Ok (p, op, operands) \<longrightarrow> op \<in> set code \<longrightarrow>
            step e vm = Ok (setPointer vm p)"
    using assms by (auto simp add: step_fetch dispatch_unhandled)
  let ?f = "NewFrame \<lparr>Instructions = code, LocalCount = 0, ParamCount = 0\<rparr> 0"
  have fl: "flist (frames (New \<lparr>bInstructions = code, bConstants = cs\<rparr>)) = ?f\<lparr>pointer := - 1\<rparr> # []"
    by (simp add: New_def NewFrame_def Let_def)
  have "Run e (New \<lparr>bInstructions = code, bConstants = cs\<rparr>)
      = Some (Ok (setPointer (New \<lparr>bInstructions = code, bConstants = cs\<rparr>)
                    (int (length (Instructions (fn ?f))) - 1)))"
    by (rule Run_unhandled [OF _ fl]) (use assms in \<open>simp_all add: NewFrame_def\<close>)
  then have b: "Run e (New \<lparr>bInstructions = code, bConstants = cs\<rparr>)
           = Some (Ok (setPointer (New \<lparr>bInstructions = code, bConstants = cs\<rparr>)
                         (int (length code) - 1)))"
    by (simp add: NewFrame_def)
  show ?thesis using a b unhandled_names by blast
qed

text \<open>
  The theorem on the stream of the byte 255 followed by \<^verbatim>\<open>Closure\<close>, \<^verbatim>\<open>GetFree\<close>
  and \<^verbatim>\<open>GetBuiltin\<close>: \<^verbatim>\<open>Run\<close> returns nil.
\<close>

theorem switch_has_no_default_witness:
  "Run env_iota (New \<lparr>bInstructions = [255, iota OpClosure, iota OpGetFree, iota OpGetBuiltin],
                       bConstants = []\<rparr>)
     = Some (Ok (example_vm [255, iota OpClosure, iota OpGetFree, iota OpGetBuiltin] [] 3 []))
   \<and> step env_iota (example_vm [255, iota OpClosure, iota OpGetFree, iota OpGetBuiltin] [] (- 1) [])
     = Ok (example_vm [255, iota OpClosure, iota OpGetFree, iota OpGetBuiltin] [] 0 [])"
  using switch_has_no_default [of "[255, iota OpClosure, iota OpGetFree, iota OpGetBuiltin]" env_iota "[]"]
  by (simp add: eval_defs handled_def) (simp add: env_iota_def)

section \<open>Properties of the compiler\<close>

subsection \<open>Auxiliary facts\<close>

lemma andThen_Ok_iff: "andThen r f = Ok y \<longleftrightarrow> (\<exists>x. r = Ok x \<and> f x = Ok y)"
  by (cases r) simp_all

lemma andThen_OkE:
  assumes "andThen r f = Ok y"
  obtains x where "r = Ok x" and "f x = Ok y"
  using assms by (auto simp add: andThen_Ok_iff)

lemma nat_int_pred: "nat (int n - 1) = n - 1"
  by (cases n) simp_all

lemma scopeAt_wfc: "wfc c \<Longrightarrow> scopeAt c = Ok (last (scopes c))"
  by (auto simp add: wfc_def scopeAt_def last_conv_nth nat_int_pred)

lemma Scope_all_updated:
  "(s::Scope)\<lparr>instructions := i, prevEmitted := p, emitted := e\<rparr> =
     \<lparr>instructions = i, emitted = e, prevEmitted = p\<rparr>"
  by (cases s) simp

lemma setScope_wfc: "wfc c \<Longrightarrow> setScope c s = updLast c s"
proof -
  assume w: "wfc c"
  then have n: "nat (currentScope c) = length (butlast (scopes c))"
    by (simp add: wfc_def)
  from w have "scopes c = butlast (scopes c) @ [last (scopes c)]" by (simp add: wfc_def)
  then have "(scopes c)[nat (currentScope c) := s] = butlast (scopes c) @ [s]"
    by (metis n list_update_length)
  then show ?thesis by (simp add: setScope_def updLast_def)
qed

lemma updLast_simps [simp]:
  "ins (updLast c s) = instructions s" "em (updLast c s) = emitted s"
  "pe (updLast c s) = prevEmitted s" "butlast (scopes (updLast c s)) = butlast (scopes c)"
  "symbols (updLast c s) = symbols c" "constants_c (updLast c s) = constants_c c"
  "currentScope (updLast c s) = currentScope c"
  "length (scopes (updLast c s)) = length (butlast (scopes c)) + 1"
  by (simp_all add: updLast_def ins_def em_def pe_def)

lemma wfc_updLast [simp]: "wfc c \<Longrightarrow> wfc (updLast c s)"
  by (simp add: wfc_def updLast_def)

lemma find_opcode: "inj oc \<Longrightarrow> find (\<lambda>n. oc n = oc name) all_opcodes = Some name"
  by (cases name) (simp_all add: all_opcodes_def inj_eq)

lemma NewInstruction_eq:
  "inj (copc ce) \<Longrightarrow> NewInstruction (copc ce) (copc ce name) operands =
     (if fits (operandWidths name) operands then Ok (encode ce name operands) else Panic)"
  by (simp add: NewInstruction_def find_opcode encode_def)

lemma emit_eq:
  assumes "wfc c" and "inj (copc ce)"
  shows "emit ce c (copc ce name) operands =
     (if fits (operandWidths name) operands
      then Ok (int (length (ins c)),
               updLast c \<lparr>instructions = ins c @ encode ce name operands,
                          emitted = \<lparr>Opcode = copc ce name, Position = int (length (ins c))\<rparr>,
                          prevEmitted = em c\<rparr>)
      else Panic)"
proof -
  have 1: "addInstruction c bs = Ok (int (length (ins c)),
      updLast c ((last (scopes c))\<lparr>instructions := ins c @ bs\<rparr>))" for bs
    using assms(1) by (simp add: addInstruction_def scopeAt_wfc setScope_wfc ins_def)
  have 2: "setEmitted (updLast c s) op pos =
      Ok (updLast c (s\<lparr>prevEmitted := emitted s, emitted := \<lparr>Opcode = op, Position = pos\<rparr>\<rparr>))"
    for s op pos
    using assms(1) by (simp add: setEmitted_def scopeAt_wfc setScope_wfc) (simp add: updLast_def)
  show ?thesis
    by (simp add: emit_def NewInstruction_eq assms(2) 1 2 em_def Scope_all_updated)
qed

lemma emit_afterEmit:
  "wfc c \<Longrightarrow> inj (copc ce) \<Longrightarrow> emit ce c (copc ce name) operands =
     (if fits (operandWidths name) operands
      then Ok (int (length (ins c)), afterEmit ce c name operands) else Panic)"
  by (simp add: emit_eq afterEmit_def)

lemma emitOp_afterEmit:
  "wfc c \<Longrightarrow> inj (copc ce) \<Longrightarrow> emitOp ce c (copc ce name) operands =
     (if fits (operandWidths name) operands then Ok (afterEmit ce c name operands) else Panic)"
  by (simp add: emitOp_def emit_afterEmit)

lemma emitOp_OkD:
  "emitOp ce c (copc ce name) operands = Ok c' \<Longrightarrow> wfc c \<Longrightarrow> inj (copc ce) \<Longrightarrow>
   c' = afterEmit ce c name operands"
  by (simp add: emitOp_afterEmit split: if_splits)

lemma emit_OkD:
  "emit ce c (copc ce name) operands = Ok (pos, c') \<Longrightarrow> wfc c \<Longrightarrow> inj (copc ce) \<Longrightarrow>
   c' = afterEmit ce c name operands \<and> pos = int (length (ins c)) \<and> fits (operandWidths name) operands"
  by (simp add: emit_afterEmit split: if_splits)

lemma afterEmit_simps [simp]:
  "ins (afterEmit ce c name operands) = ins c @ encode ce name operands"
  "em (afterEmit ce c name operands) = \<lparr>Opcode = copc ce name, Position = int (length (ins c))\<rparr>"
  "pe (afterEmit ce c name operands) = em c"
  "butlast (scopes (afterEmit ce c name operands)) = butlast (scopes c)"
  "symbols (afterEmit ce c name operands) = symbols c"
  "constants_c (afterEmit ce c name operands) = constants_c c"
  by (simp_all add: afterEmit_def)

lemma wfc_afterEmit [simp]: "wfc c \<Longrightarrow> wfc (afterEmit ce c name operands)"
  by (simp add: afterEmit_def)

lemma encode_nonempty [simp]: "encode ce name operands \<noteq> []"
  by (simp add: encode_def)

lemma encode_no_operands:
  "operandWidths name = [] \<Longrightarrow> encode ce name operands = [copc ce name]"
  by (simp add: encode_def)

lemma extends_refl: "wfc c \<Longrightarrow> extends c c"
  by (simp add: extends_def)

lemma extends_trans:
  assumes "extends a b" and "extends b c"
  shows "extends a c"
proof -
  have l: "length (ins a) \<le> length (ins b)" "length (ins b) \<le> length (ins c)"
    using assms by (simp_all add: extends_def)
  have "take (length (ins a)) (ins c) = take (length (ins a)) (take (length (ins b)) (ins c))"
    using l by (simp add: min_def)
  also have "\<dots> = ins a" using assms by (simp add: extends_def)
  finally show ?thesis using assms l by (simp add: extends_def)
qed

lemma extends_afterEmit: "wfc c \<Longrightarrow> extends c (afterEmit ce c name operands)"
  by (simp add: extends_def)

lemma extends_length: "extends c c' \<Longrightarrow> length (ins c) \<le> length (ins c')"
  by (simp add: extends_def)

lemma extends_wfc: "extends c c' \<Longrightarrow> wfc c'"
  by (simp add: extends_def)

lemma lastAt_mono: "lastAt ce c n \<Longrightarrow> m \<le> n \<Longrightarrow> lastAt ce c m"
  by (simp add: lastAt_def)

lemma prevAt_mono: "prevAt ce c n \<Longrightarrow> m \<le> n \<Longrightarrow> prevAt ce c m"
  by (simp add: prevAt_def)

lemma lastAt_afterEmit:
  "inj (copc ce) \<Longrightarrow> lastAt ce (afterEmit ce c name operands) (int (length (ins c)))"
  by (auto simp add: lastAt_def inj_eq encode_no_operands nth_append encode_def)

lemma prevAt_afterEmit:
  "lastAt ce c n \<Longrightarrow> prevAt ce (afterEmit ce c name operands) n"
  by (auto simp add: lastAt_def prevAt_def nth_append split: if_splits)

lemma field_update_simps [simp]:
  "ins (c\<lparr>symbols := t\<rparr>) = ins c" "em (c\<lparr>symbols := t\<rparr>) = em c" "pe (c\<lparr>symbols := t\<rparr>) = pe c"
  "ins (c\<lparr>constants_c := k\<rparr>) = ins c" "em (c\<lparr>constants_c := k\<rparr>) = em c"
  "pe (c\<lparr>constants_c := k\<rparr>) = pe c"
  "wfc (c\<lparr>symbols := t\<rparr>) = wfc c" "wfc (c\<lparr>constants_c := k\<rparr>) = wfc c"
  by (simp_all add: ins_def em_def pe_def wfc_def)

lemma extends_fields [simp]:
  "extends (c\<lparr>symbols := t\<rparr>) c' = extends c c'"
  "extends (c\<lparr>constants_c := k\<rparr>) c' = extends c c'"
  by (simp_all add: extends_def)

lemma isEmitted_eq:
  "wfc c \<Longrightarrow> isEmitted c code = Ok (ins c \<noteq> [] \<and> Opcode (em c) = code)"
  by (simp add: isEmitted_def scopeAt_wfc ins_def em_def)

lemma preventPop_eq:
  "wfc c \<Longrightarrow> preventPop c =
     (if Position (em c) < 0 \<or> Position (em c) > int (length (ins c)) then Panic
      else Ok (updLast c \<lparr>instructions = take (nat (Position (em c))) (ins c),
                          emitted = pe c, prevEmitted = pe c\<rparr>))"
  by (cases "last (scopes c)")
     (simp add: preventPop_def scopeAt_wfc setScope_wfc ins_def em_def pe_def Let_def)

lemma preventPopIfEmitted_lastAt:
  assumes "wfc c" and "lastAt ce c n" and "prevAt ce c n"
    and "preventPopIfEmitted ce c = Ok c'"
  shows "wfc c' \<and> butlast (scopes c') = butlast (scopes c) \<and> ins c' = stripped ce c
       \<and> lastAt ce c' n \<and> symbols c' = symbols c \<and> constants_c c' = constants_c c"
proof (cases "ins c \<noteq> [] \<and> Opcode (em c) = copc ce OpPop")
  case False
  then have "c' = c" using assms(1,4)
    by (auto simp add: preventPopIfEmitted_def isEmitted_eq)
  moreover have "stripped ce c = ins c" using False by (auto simp add: stripped_def)
  ultimately show ?thesis using assms(1,2) by simp
next
  case True
  then have pos: "Position (em c) = int (length (ins c)) - 1"
    using assms(2) by (simp add: lastAt_def)
  have c': "c' = updLast c \<lparr>instructions = take (nat (Position (em c))) (ins c),
                          emitted = pe c, prevEmitted = pe c\<rparr>"
    using assms(1,4) True pos
    by (simp add: preventPopIfEmitted_def isEmitted_eq preventPop_eq split: if_splits)
  have t: "take (nat (Position (em c))) (ins c) = butlast (ins c)"
    using pos by (simp add: butlast_conv_take nat_int_pred)
  have "lastAt ce c' n"
    using assms(2,3) True pos
    by (auto simp add: c' t lastAt_def prevAt_def nth_butlast split: if_splits)
  then show ?thesis using assms(1) True by (simp add: c' t stripped_def)
qed

lemma overwrite_eq:
  "overwrite xs pos bs =
     (if bs = [] then Ok xs
      else if pos < 0 \<or> pos + int (length bs) > int (length xs) then Panic
      else Ok (take (nat pos) xs @ bs @ drop (nat pos + length bs) xs))"
proof (induction bs arbitrary: xs pos)
  case Nil
  then show ?case by simp
next
  case (Cons b bs)
  show ?case
  proof (cases "pos < 0 \<or> pos \<ge> int (length xs)")
    case True
    then show ?thesis by auto
  next
    case False
    then have p: "0 \<le> pos" "nat pos < length xs" by auto
    let ?xs = "xs[nat pos := b]"
    have s: "nat (pos + 1) = Suc (nat pos)" using p by simp
    have t: "take (Suc (nat pos)) ?xs = take (nat pos) xs @ [b]"
      using p by (simp add: take_Suc_conv_app_nth)
    have d: "drop (Suc (nat pos) + length bs) ?xs = drop (Suc (nat pos) + length bs) xs"
      by simp
    have o: "overwrite xs pos (b # bs) = overwrite ?xs (pos + 1) bs"
      using False by simp
    show ?thesis
    proof (cases "bs = []")
      case True
      have "?xs = take (nat pos) xs @ [b] @ drop (Suc (nat pos)) xs"
        using p by (simp add: upd_conv_take_nth_drop)
      then show ?thesis using True p False o by simp
    next
      case bs: False
      have "overwrite ?xs (pos + 1) bs =
          (if int (length xs) < pos + 1 + int (length bs) then Panic
           else Ok (take (Suc (nat pos)) ?xs @ bs @ drop (Suc (nat pos) + length bs) ?xs))"
        using bs p by (simp only: Cons.IH s) simp
      then show ?thesis using p False bs o by (simp only: t d) simp
    qed
  qed
qed

lemma withIns_simps [simp]:
  "ins (withIns c new) = new" "em (withIns c new) = em c" "pe (withIns c new) = pe c"
  "butlast (scopes (withIns c new)) = butlast (scopes c)"
  "symbols (withIns c new) = symbols c" "constants_c (withIns c new) = constants_c c"
  by (simp_all add: withIns_def updLast_def em_def pe_def ins_def)

lemma wfc_withIns [simp]: "wfc c \<Longrightarrow> wfc (withIns c new)"
  by (simp add: withIns_def)

lemma changeInstruction_eq:
  "wfc c \<Longrightarrow> changeInstruction c pos bs =
     andThen (overwrite (ins c) pos bs) (\<lambda>new. Ok (withIns c new))"
  by (simp add: changeInstruction_def scopeAt_wfc setScope_wfc withIns_def ins_def)

lemma encode_jump:
  "operandWidths name = [2] \<Longrightarrow> encode ce name [t] = jumpBytes ce name t"
  by (simp add: encode_def jumpBytes_def)

lemma length_putUint [simp]: "length (putUint w v) = w"
  by (simp add: putUint_def)

lemma length_jumpBytes [simp]: "length (jumpBytes ce name t) = 3"
  by (simp add: jumpBytes_def)

lemma fits_jump: "fits [2] [t] \<longleftrightarrow> 0 \<le> t \<and> t < 65536"
  by (simp add: fits_def)

lemma changeOperand_jump:
  assumes "wfc c" and "inj (copc ce)" and "0 \<le> pos" and "nat pos + 3 \<le> length (ins c)"
    and "ins c ! nat pos = copc ce name" and "operandWidths name = [2]"
  shows "changeOperand ce c pos t =
     (if 0 \<le> t \<and> t < 65536
      then Ok (withIns c (take (nat pos) (ins c) @ jumpBytes ce name t @ drop (nat pos + 3) (ins c)))
      else Panic)"
proof -
  have ci: "currentInstructions c = Ok (ins c)"
    using assms(1) by (simp add: currentInstructions_def scopeAt_wfc ins_def)
  have rng: "\<not> (pos < 0 \<or> pos \<ge> int (length (ins c)))" using assms(3,4) by auto
  have ni: "NewInstruction (copc ce) (ins c ! nat pos) [t] =
      (if 0 \<le> t \<and> t < 65536 then Ok (jumpBytes ce name t) else Panic)"
    using assms(2,5,6) by (simp add: NewInstruction_eq fits_jump encode_jump)
  have ow: "overwrite (ins c) pos (jumpBytes ce name t) =
      Ok (take (nat pos) (ins c) @ jumpBytes ce name t @ drop (nat pos + 3) (ins c))"
    using assms(3,4) by (subst overwrite_eq) (auto simp add: jumpBytes_def)
  show ?thesis
    using rng by (simp add: changeOperand_def ci ni changeInstruction_eq assms(1) ow)
qed

lemma preventPopIfEmitted_noop:
  "wfc c \<Longrightarrow> ins c = [] \<or> Opcode (em c) \<noteq> copc ce OpPop \<Longrightarrow> preventPopIfEmitted ce c = Ok c"
  by (auto simp add: preventPopIfEmitted_def isEmitted_eq)

lemma EokD:
  "Eok ce e \<Longrightarrow> wfc c \<Longrightarrow> Compile_expr ce e c = Ok c' \<Longrightarrow>
   extends c c' \<and> lastAt ce c' (int (length (ins c)))"
  by (simp add: Eok_def)

lemma SokD:
  "Sok ce s \<Longrightarrow> wfc c \<Longrightarrow> Compile_stmt ce s c = Ok c' \<Longrightarrow>
   extends c c' \<and> lastAt ce c' (int (length (ins c))) \<and> prevAt ce c' (int (length (ins c)))"
  by (simp add: Sok_def)

lemma stmts_ok:
  assumes "\<forall>s\<in>set ss. Sok ce s" and "wfc c"
    and "forEach (map (\<lambda>s. Compile_stmt ce s) ss) c = Ok c'"
  shows "extends c c' \<and>
         (if ss = [] then c' = c
          else lastAt ce c' (int (length (ins c))) \<and> prevAt ce c' (int (length (ins c))))"
  using assms
proof (induction ss arbitrary: c)
  case Nil
  then show ?case by (simp add: extends_refl)
next
  case (Cons s ss)
  from Cons.prems(3) obtain c1 where
    1: "Compile_stmt ce s c = Ok c1" and 2: "forEach (map (\<lambda>s. Compile_stmt ce s) ss) c1 = Ok c'"
    by (auto elim: andThen_OkE)
  have s: "extends c c1" "lastAt ce c1 (int (length (ins c)))" "prevAt ce c1 (int (length (ins c)))"
    using SokD [OF _ Cons.prems(2) 1] Cons.prems(1) by simp_all
  have w1: "wfc c1" using s(1) by (rule extends_wfc)
  have ih: "extends c1 c' \<and>
         (if ss = [] then c' = c1
          else lastAt ce c' (int (length (ins c1))) \<and> prevAt ce c' (int (length (ins c1))))"
    using Cons.IH [OF _ w1 2] Cons.prems(1) by simp
  have le: "int (length (ins c)) \<le> int (length (ins c1))"
    using extends_length [OF s(1)] by simp
  have e: "extends c c'" using s(1) ih by (blast intro: extends_trans)
  show ?case
  proof (cases "ss = []")
    case True
    then show ?thesis using e ih s by simp
  next
    case False
    then show ?thesis using e ih le by (auto intro: lastAt_mono prevAt_mono)
  qed
qed

lemma exprs_ok:
  assumes "\<forall>x\<in>set xs. Eok ce x" and "wfc c"
    and "forEach (map (\<lambda>x. Compile_expr ce x) xs) c = Ok c'"
  shows "extends c c'"
  using assms
proof (induction xs arbitrary: c)
  case Nil
  then show ?case by (simp add: extends_refl)
next
  case (Cons x xs)
  from Cons.prems(3) obtain c1 where
    1: "Compile_expr ce x c = Ok c1" and 2: "forEach (map (\<lambda>x. Compile_expr ce x) xs) c1 = Ok c'"
    by (auto elim: andThen_OkE)
  have s: "extends c c1" using EokD [OF _ Cons.prems(2) 1] Cons.prems(1) by simp
  have "extends c1 c'" using Cons.IH [OF _ extends_wfc [OF s] 2] Cons.prems(1) by simp
  with s show ?case by (rule extends_trans)
qed

lemma pairs_ok:
  assumes "\<forall>(k, v)\<in>set ps. Eok ce k \<and> Eok ce v" and "wfc c"
    and "forEach (map (\<lambda>(k, v). \<lambda>c'. andThen (Compile_expr ce k c')
                         (\<lambda>c''. Compile_expr ce v c'')) ps) c = Ok c'"
  shows "extends c c'"
  using assms
proof (induction ps arbitrary: c)
  case Nil
  then show ?case by (simp add: extends_refl)
next
  case (Cons p ps)
  obtain k v where p: "p = (k, v)" by (cases p)
  from Cons.prems(3) obtain c1 c2 where
    1: "Compile_expr ce k c = Ok c1" and 2: "Compile_expr ce v c1 = Ok c2"
    and 3: "forEach (map (\<lambda>(k, v). \<lambda>c'. andThen (Compile_expr ce k c')
                         (\<lambda>c''. Compile_expr ce v c'')) ps) c2 = Ok c'"
    unfolding p by (auto elim!: andThen_OkE)
  have k: "Eok ce k" "Eok ce v" using Cons.prems(1) p by auto
  have s1: "extends c c1" using EokD [OF k(1) Cons.prems(2) 1] by simp
  have s2: "extends c1 c2" using EokD [OF k(2) extends_wfc [OF s1] 2] by simp
  have "extends c2 c'" using Cons.IH [OF _ extends_wfc [OF s2] 3] Cons.prems(1) by simp
  with s1 s2 show ?case by (blast intro: extends_trans)
qed

lemma loadSymbol_afterEmit:
  "wfc c \<Longrightarrow> inj (copc ce) \<Longrightarrow> loadSymbol ce c s = Ok c' \<Longrightarrow>
   \<exists>name operands. c' = afterEmit ce c name operands"
  by (cases "SScope s") (auto simp add: loadSymbol_def dest: emitOp_OkD)

lemma loads_ok:
  assumes "inj (copc ce)" and "wfc c"
    and "forEach (map (\<lambda>s. \<lambda>c'. loadSymbol ce c' s) fs) c = Ok c'"
  shows "extends c c' \<and> constants_c c' = constants_c c \<and> symbols c' = symbols c"
  using assms(2,3)
proof (induction fs arbitrary: c)
  case Nil
  then show ?case by (simp add: extends_refl)
next
  case (Cons s fs)
  from Cons.prems(2) obtain c1 where
    1: "loadSymbol ce c s = Ok c1" and 2: "forEach (map (\<lambda>s. \<lambda>c'. loadSymbol ce c' s) fs) c1 = Ok c'"
    by (auto elim: andThen_OkE)
  from loadSymbol_afterEmit [OF Cons.prems(1) assms(1) 1]
  obtain name operands where c1: "c1 = afterEmit ce c name operands" by blast
  have e1: "extends c c1" unfolding c1 using Cons.prems(1) by (rule extends_afterEmit)
  have ih: "extends c1 c' \<and> constants_c c' = constants_c c1 \<and> symbols c' = symbols c1"
    using Cons.IH [OF extends_wfc [OF e1] 2] .
  then show ?case using e1 c1 by (auto intro: extends_trans)
qed

lemma if_trace:
  "Compile_expr ce (IfExpression cond cons alt) c = Ok c' \<longleftrightarrow>
     (\<exists>c1 p1 c2 c3 c4 p2 c5 i5 c6 c7 i7.
        Compile_expr ce cond c = Ok c1
      \<and> emit ce c1 (copc ce OpJumpNotTruthy) [9999] = Ok (p1, c2)
      \<and> forEach (map (\<lambda>s. Compile_stmt ce s) cons) c2 = Ok c3
      \<and> preventPopIfEmitted ce c3 = Ok c4
      \<and> emit ce c4 (copc ce OpJump) [9999] = Ok (p2, c5)
      \<and> currentInstructions c5 = Ok i5
      \<and> changeOperand ce c5 p1 (int (length i5)) = Ok c6
      \<and> (case alt of
            None \<Rightarrow> emitOp ce c6 (copc ce OpNull) []
          | Some a \<Rightarrow> andThen (forEach (map (\<lambda>s. Compile_stmt ce s) a) c6)
                        (\<lambda>c'. preventPopIfEmitted ce c')) = Ok c7
      \<and> currentInstructions c7 = Ok i7
      \<and> changeOperand ce c7 p2 (int (length i7)) = Ok c')"
  by (simp add: andThen_Ok_iff)

lemma currentInstructions_eq: "wfc c \<Longrightarrow> currentInstructions c = Ok (ins c)"
  by (simp add: currentInstructions_def scopeAt_wfc ins_def)

lemma lastAt_patch:
  assumes "lastAt ce c n" and "0 \<le> p" and "nat p + 3 \<le> length (ins c)"
    and "ins c ! nat p = copc ce name"
    and "Position (em c) = p \<or> Position (em c) \<ge> p + 3"
  shows "lastAt ce (withIns c (take (nat p) (ins c) @ jumpBytes ce name t
                                 @ drop (nat p + 3) (ins c))) n"
proof -
  define new where "new = take (nat p) (ins c) @ jumpBytes ce name t @ drop (nat p + 3) (ins c)"
  have len: "length new = length (ins c)" using assms(3) by (simp add: new_def)
  have pos: "0 \<le> Position (em c)" "Position (em c) < int (length (ins c))"
    using assms(1) by (simp_all add: lastAt_def)
  have nth: "new ! nat (Position (em c)) = ins c ! nat (Position (em c))"
  proof (cases "Position (em c) = p")
    case True
    then show ?thesis using assms(2-4) by (simp add: new_def nth_append jumpBytes_def)
  next
    case False
    then have ge: "Position (em c) \<ge> p + 3" using assms(5) by simp
    then have eq: "nat (Position (em c)) = (nat p + 3) + (nat (Position (em c)) - (nat p + 3))"
      using assms(2) by simp
    have "new ! ((nat p + 3) + k) = ins c ! ((nat p + 3) + k)" for k
      using assms(3) by (simp add: new_def nth_append)
    then show ?thesis using eq by metis
  qed
  have "lastAt ce (withIns c new) n"
    using assms(1) by (simp add: lastAt_def len nth)
  then show ?thesis by (simp only: new_def)
qed

lemma block_strip:
  assumes "\<forall>s\<in>set ss. Sok ce s" and "wfc c" and "Opcode (em c) \<noteq> copc ce OpPop"
    and "forEach (map (\<lambda>s. Compile_stmt ce s) ss) c = Ok c3"
    and "preventPopIfEmitted ce c3 = Ok c4"
  shows "extends c c4 \<and> ins c4 = stripped ce c3
       \<and> (if ss = [] then c3 = c \<and> c4 = c else lastAt ce c4 (int (length (ins c))))"
proof -
  have s: "extends c c3"
    "if ss = [] then c3 = c
     else lastAt ce c3 (int (length (ins c))) \<and> prevAt ce c3 (int (length (ins c)))"
    using stmts_ok [OF assms(1,2,4)] by simp_all
  have w3: "wfc c3" using s(1) by (rule extends_wfc)
  show ?thesis
  proof (cases "ss = []")
    case True
    then have c3: "c3 = c" using s(2) by simp
    have "preventPopIfEmitted ce c = Ok c"
      using assms(2,3) by (simp add: preventPopIfEmitted_noop)
    then have "c4 = c" using assms(5) c3 by simp
    moreover have "stripped ce c = ins c" using assms(3) by (simp add: stripped_def)
    ultimately show ?thesis using True c3 assms(2) by (simp add: extends_refl)
  next
    case False
    then have l: "lastAt ce c3 (int (length (ins c)))" "prevAt ce c3 (int (length (ins c)))"
      using s(2) by simp_all
    from preventPopIfEmitted_lastAt [OF w3 l assms(5)]
    have p: "wfc c4" "butlast (scopes c4) = butlast (scopes c3)" "ins c4 = stripped ce c3"
      "lastAt ce c4 (int (length (ins c)))" by simp_all
    have e3: "take (length (ins c)) (ins c3) = ins c" "length (ins c) \<le> length (ins c3)"
      "butlast (scopes c3) = butlast (scopes c)"
      using s(1) by (simp_all add: extends_def)
    have "take (length (ins c)) (stripped ce c3) = ins c \<and> length (ins c) \<le> length (stripped ce c3)"
    proof (cases "ins c3 \<noteq> [] \<and> Opcode (em c3) = copc ce OpPop")
      case True
      then have "Position (em c3) = int (length (ins c3)) - 1" "int (length (ins c)) \<le> Position (em c3)"
        using l(1) by (simp_all add: lastAt_def)
      then have lt: "length (ins c) < length (ins c3)" by simp
      then show ?thesis using True e3 by (simp add: stripped_def take_butlast)
    next
      case False
      then show ?thesis using e3 by (auto simp add: stripped_def)
    qed
    then have "extends c c4" using p e3 by (simp add: extends_def)
    then show ?thesis using p False by simp
  qed
qed

lemma extends_prefix:
  "extends c c' \<Longrightarrow> ins c' = ins c @ drop (length (ins c)) (ins c')"
  using append_take_drop_id [of "length (ins c)" "ins c'"] by (simp add: extends_def)

lemma if_layout:
  assumes inj: "inj (copc ce)" and w: "wfc c"
    and Ec: "Eok ce cond" and S1: "\<forall>s\<in>set cons. Sok ce s"
    and S2: "\<forall>a. alt = Some a \<longrightarrow> (\<forall>s\<in>set a. Sok ce s)"
    and run: "Compile_expr ce (IfExpression cond cons alt) c = Ok c'"
  shows "\<exists>c1 c3 c4 c6 c7 B1 B2.
      Compile_expr ce cond c = Ok c1
    \<and> emit ce c1 (copc ce OpJumpNotTruthy) [9999]
        = Ok (int (length (ins c1)), afterEmit ce c1 OpJumpNotTruthy [9999])
    \<and> forEach (map (\<lambda>s. Compile_stmt ce s) cons) (afterEmit ce c1 OpJumpNotTruthy [9999]) = Ok c3
    \<and> preventPopIfEmitted ce c3 = Ok c4
    \<and> emit ce c4 (copc ce OpJump) [9999]
        = Ok (int (length (ins c4)), afterEmit ce c4 OpJump [9999])
    \<and> ins c4 = stripped ce c3
    \<and> ins c4 = ins c1 @ jumpBytes ce OpJumpNotTruthy 9999 @ B1
    \<and> changeOperand ce (afterEmit ce c4 OpJump [9999]) (int (length (ins c1)))
          (int (length (ins c4)) + 3) = Ok c6
    \<and> ins c6 = ins c1 @ jumpBytes ce OpJumpNotTruthy (int (length (ins c4)) + 3) @ B1
                 @ jumpBytes ce OpJump 9999
    \<and> (case alt of
          None \<Rightarrow> emitOp ce c6 (copc ce OpNull) [] = Ok c7 \<and> B2 = [copc ce OpNull]
        | Some a \<Rightarrow> (\<exists>c7'. forEach (map (\<lambda>s. Compile_stmt ce s) a) c6 = Ok c7'
                        \<and> preventPopIfEmitted ce c7' = Ok c7 \<and> ins c7 = stripped ce c7'))
    \<and> ins c7 = ins c6 @ B2
    \<and> changeOperand ce c7 (int (length (ins c4))) (int (length (ins c7))) = Ok c'
    \<and> ins c' = ins c1 @ jumpBytes ce OpJumpNotTruthy (int (length (ins c4)) + 3) @ B1
                 @ jumpBytes ce OpJump (int (length (ins c'))) @ B2
    \<and> extends c c' \<and> lastAt ce c' (int (length (ins c)))"
proof -
  from run [unfolded if_trace] obtain c1 p1 c2 c3 c4 p2 c5 i5 c6 c7 i7 where
    t1: "Compile_expr ce cond c = Ok c1"
    and t2: "emit ce c1 (copc ce OpJumpNotTruthy) [9999] = Ok (p1, c2)"
    and t3: "forEach (map (\<lambda>s. Compile_stmt ce s) cons) c2 = Ok c3"
    and t4: "preventPopIfEmitted ce c3 = Ok c4"
    and t5: "emit ce c4 (copc ce OpJump) [9999] = Ok (p2, c5)"
    and t6: "currentInstructions c5 = Ok i5"
    and t7: "changeOperand ce c5 p1 (int (length i5)) = Ok c6"
    and t8: "(case alt of
            None \<Rightarrow> emitOp ce c6 (copc ce OpNull) []
          | Some a \<Rightarrow> andThen (forEach (map (\<lambda>s. Compile_stmt ce s) a) c6)
                        (\<lambda>c'. preventPopIfEmitted ce c')) = Ok c7"
    and t9: "currentInstructions c7 = Ok i7"
    and t10: "changeOperand ce c7 p2 (int (length i7)) = Ok c'"
    by blast
  define n0 where "n0 = int (length (ins c))"
  define I1 where "I1 = ins c1"
  have e1: "extends c c1" and l1: "lastAt ce c1 n0"
    using EokD [OF Ec w t1] by (simp_all add: n0_def)
  have w1: "wfc c1" using e1 by (rule extends_wfc)
  have c2: "c2 = afterEmit ce c1 OpJumpNotTruthy [9999]" and p1: "p1 = int (length I1)"
    using emit_OkD [OF t2 w1 inj] by (simp_all add: I1_def)
  have w2: "wfc c2" using w1 by (simp add: c2)
  have i2: "ins c2 = I1 @ jumpBytes ce OpJumpNotTruthy 9999"
    by (simp add: c2 encode_jump I1_def)
  have np2: "Opcode (em c2) \<noteq> copc ce OpPop" using inj by (simp add: c2 inj_eq)
  from block_strip [OF S1 w2 np2 t3 t4]
  have e24: "extends c2 c4" and s4: "ins c4 = stripped ce c3"
    and k4: "if cons = [] then c3 = c2 \<and> c4 = c2 else lastAt ce c4 (int (length (ins c2)))"
    by simp_all
  define B1 where "B1 = drop (length (ins c2)) (ins c4)"
  have i4: "ins c4 = I1 @ jumpBytes ce OpJumpNotTruthy 9999 @ B1"
    using extends_prefix [OF e24] by (simp add: B1_def i2)
  have w4: "wfc c4" using e24 by (rule extends_wfc)
  have c5: "c5 = afterEmit ce c4 OpJump [9999]" and p2: "p2 = int (length (ins c4))"
    using emit_OkD [OF t5 w4 inj] by simp_all
  have w5: "wfc c5" using w4 by (simp add: c5)
  have i5: "ins c5 = I1 @ jumpBytes ce OpJumpNotTruthy 9999 @ B1 @ jumpBytes ce OpJump 9999"
    by (simp add: c5 encode_jump i4)
  have i5': "i5 = ins c5" using t6 w5 by (simp add: currentInstructions_eq)
  have len5: "int (length i5) = int (length (ins c4)) + 3" by (simp add: i5' i5 i4)
  have l5: "lastAt ce c5 (int (length (ins c4)))" unfolding c5 using inj by (rule lastAt_afterEmit)
  have co6: "changeOperand ce c5 p1 (int (length i5)) =
     (if 0 \<le> int (length i5) \<and> int (length i5) < 65536
      then Ok (withIns c5 (take (nat p1) (ins c5) @ jumpBytes ce OpJumpNotTruthy (int (length i5))
                             @ drop (nat p1 + 3) (ins c5)))
      else Panic)"
    by (rule changeOperand_jump [OF w5 inj]) (simp_all add: p1 i5 nth_append jumpBytes_def)
  have c6: "c6 = withIns c5 (take (nat p1) (ins c5) @ jumpBytes ce OpJumpNotTruthy (int (length i5))
                             @ drop (nat p1 + 3) (ins c5))"
    using t7 co6 by (simp split: if_splits)
  have i6: "ins c6 = I1 @ jumpBytes ce OpJumpNotTruthy (int (length (ins c4)) + 3) @ B1
                      @ jumpBytes ce OpJump 9999"
    by (simp add: c6 p1 i5 len5)
  have w6: "wfc c6" using w5 by (simp add: c6)
  have em6: "em c6 = \<lparr>Opcode = copc ce OpJump, Position = int (length (ins c4))\<rparr>"
    by (simp add: c6 c5)
  have len6: "int (length (ins c6)) = int (length (ins c4)) + 3" by (simp add: i6 i4)
  have l6: "lastAt ce c6 n0"
  proof -
    have "lastAt ce c6 (int (length (ins c4)))"
      unfolding c6
      by (rule lastAt_patch [OF l5]) (simp_all add: p1 i5 nth_append jumpBytes_def c5 i4)
    moreover have "n0 \<le> int (length (ins c4))"
      using extends_length [OF e1] by (simp add: n0_def i4 I1_def)
    ultimately show ?thesis by (rule lastAt_mono)
  qed
  have np6: "Opcode (em c6) \<noteq> copc ce OpPop" using inj by (simp add: em6 inj_eq)
  have alt: "\<exists>B2. wfc c7 \<and> butlast (scopes c7) = butlast (scopes c6) \<and> ins c7 = ins c6 @ B2
      \<and> lastAt ce c7 n0
      \<and> (Position (em c7) = int (length (ins c4)) \<or> Position (em c7) \<ge> int (length (ins c4)) + 3)
      \<and> (case alt of
          None \<Rightarrow> emitOp ce c6 (copc ce OpNull) [] = Ok c7 \<and> B2 = [copc ce OpNull]
        | Some a \<Rightarrow> (\<exists>c7'. forEach (map (\<lambda>s. Compile_stmt ce s) a) c6 = Ok c7'
                        \<and> preventPopIfEmitted ce c7' = Ok c7 \<and> ins c7 = stripped ce c7'))"
  proof (cases alt)
    case None
    then have c7: "c7 = afterEmit ce c6 OpNull []" using t8 w6 inj by (simp add: emitOp_OkD)
    have "lastAt ce c7 (int (length (ins c6)))" unfolding c7 using inj by (rule lastAt_afterEmit)
    then have "lastAt ce c7 n0"
      by (rule lastAt_mono) (use extends_length [OF e1] in \<open>simp add: n0_def len6 i4 I1_def\<close>)
    moreover have "emitOp ce c6 (copc ce OpNull) [] = Ok c7" using t8 None by simp
    ultimately show ?thesis using None w6 by (simp add: c7 encode_no_operands len6)
  next
    case (Some a)
    with t8 obtain c7' where a1: "forEach (map (\<lambda>s. Compile_stmt ce s) a) c6 = Ok c7'"
      and a2: "preventPopIfEmitted ce c7' = Ok c7"
      by (auto elim: andThen_OkE)
    have Sa: "\<forall>s\<in>set a. Sok ce s" using S2 Some by simp
    from block_strip [OF Sa w6 np6 a1 a2]
    have e67: "extends c6 c7" and s7: "ins c7 = stripped ce c7'"
      and k7: "if a = [] then c7' = c6 \<and> c7 = c6 else lastAt ce c7 (int (length (ins c6)))"
      by simp_all
    have b: "butlast (scopes c7) = butlast (scopes c6)" "wfc c7"
      using e67 by (simp_all add: extends_def)
    have l7: "lastAt ce c7 n0 \<and>
      (Position (em c7) = int (length (ins c4)) \<or> Position (em c7) \<ge> int (length (ins c4)) + 3)"
    proof (cases "a = []")
      case True
      then show ?thesis using k7 l6 em6 by simp
    next
      case False
      then have l: "lastAt ce c7 (int (length (ins c6)))" using k7 by simp
      then have "int (length (ins c6)) \<le> Position (em c7)" by (simp add: lastAt_def)
      moreover have "lastAt ce c7 n0"
        using l by (rule lastAt_mono)
           (use extends_length [OF e1] in \<open>simp add: n0_def len6 i4 I1_def\<close>)
      ultimately show ?thesis by (simp add: len6)
    qed
    show ?thesis
      using Some a1 a2 s7 b l7 extends_prefix [OF e67] by auto
  qed
  then obtain B2 where w7: "wfc c7" and b7: "butlast (scopes c7) = butlast (scopes c6)"
    and i7: "ins c7 = ins c6 @ B2" and l7: "lastAt ce c7 n0"
    and pos7: "Position (em c7) = int (length (ins c4)) \<or> Position (em c7) \<ge> int (length (ins c4)) + 3"
    and alt7: "case alt of
          None \<Rightarrow> emitOp ce c6 (copc ce OpNull) [] = Ok c7 \<and> B2 = [copc ce OpNull]
        | Some a \<Rightarrow> (\<exists>c7'. forEach (map (\<lambda>s. Compile_stmt ce s) a) c6 = Ok c7'
                        \<and> preventPopIfEmitted ce c7' = Ok c7 \<and> ins c7 = stripped ce c7')"
    by blast
  have i7': "i7 = ins c7" using t9 w7 by (simp add: currentInstructions_eq)
  define P where "P = I1 @ jumpBytes ce OpJumpNotTruthy (int (length (ins c4)) + 3) @ B1"
  have lenP: "length P = length (ins c4)" by (simp add: P_def i4)
  have i7P: "ins c7 = P @ jumpBytes ce OpJump 9999 @ B2" by (simp add: i7 i6 P_def)
  have pre7: "0 \<le> int (length (ins c4))" "nat (int (length (ins c4))) + 3 \<le> length (ins c7)"
    "ins c7 ! nat (int (length (ins c4))) = copc ce OpJump"
    by (simp_all add: i7P lenP [symmetric] nth_append jumpBytes_def)
  have co': "changeOperand ce c7 p2 (int (length i7)) =
     (if 0 \<le> int (length i7) \<and> int (length i7) < 65536
      then Ok (withIns c7 (take (nat p2) (ins c7) @ jumpBytes ce OpJump (int (length i7))
                             @ drop (nat p2 + 3) (ins c7)))
      else Panic)"
    unfolding p2 by (rule changeOperand_jump [OF w7 inj pre7]) simp
  have c': "c' = withIns c7 (take (nat p2) (ins c7) @ jumpBytes ce OpJump (int (length i7))
                             @ drop (nat p2 + 3) (ins c7))"
    using t10 co' by (simp split: if_splits)
  have i': "ins c' = P @ jumpBytes ce OpJump (int (length (ins c7))) @ B2"
    by (simp add: c' p2 i7P lenP [symmetric] i7')
  have len': "length (ins c') = length (ins c7)" by (simp add: i' i7P)
  have l': "lastAt ce c' n0"
    unfolding c' p2 by (rule lastAt_patch [OF l7 pre7 pos7])
  have b': "butlast (scopes c') = butlast (scopes c)"
    using e1 e24 b7 by (simp add: c' c6 c5 c2 extends_def)
  have "take (length (ins c)) (ins c') = ins c" "length (ins c) \<le> length (ins c')"
    using e1 by (simp_all add: i' P_def I1_def extends_def)
  then have e': "extends c c'" using b' w7 by (simp add: extends_def c')
  have t3': "forEach (map (\<lambda>s. Compile_stmt ce s) cons) (afterEmit ce c1 OpJumpNotTruthy [9999]) = Ok c3"
    using t3 by (simp add: c2)
  have t2': "emit ce c1 (copc ce OpJumpNotTruthy) [9999]
        = Ok (int (length (ins c1)), afterEmit ce c1 OpJumpNotTruthy [9999])"
    using t2 by (simp add: c2 p1 I1_def)
  have t5': "emit ce c4 (copc ce OpJump) [9999]
        = Ok (int (length (ins c4)), afterEmit ce c4 OpJump [9999])"
    using t5 by (simp add: c5 p2)
  have t7': "changeOperand ce (afterEmit ce c4 OpJump [9999]) (int (length (ins c1)))
          (int (length (ins c4)) + 3) = Ok c6"
    using t7 by (simp add: c5 p1 I1_def len5)
  have t10': "changeOperand ce c7 (int (length (ins c4))) (int (length (ins c7))) = Ok c'"
    using t10 by (simp add: p2 i7')
  have f5: "ins c4 = ins c1 @ jumpBytes ce OpJumpNotTruthy 9999 @ B1"
    using i4 by (simp add: I1_def)
  have f7: "ins c6 = ins c1 @ jumpBytes ce OpJumpNotTruthy (int (length (ins c4)) + 3) @ B1
                 @ jumpBytes ce OpJump 9999"
    using i6 by (simp add: I1_def)
  have f11: "ins c' = ins c1 @ jumpBytes ce OpJumpNotTruthy (int (length (ins c4)) + 3) @ B1
                 @ jumpBytes ce OpJump (int (length (ins c'))) @ B2"
    unfolding len' using i' unfolding I1_def P_def by simp
  have f13: "lastAt ce c' (int (length (ins c)))" using l' by (simp add: n0_def)
  show ?thesis
    apply (rule exI [of _ c1], rule exI [of _ c3], rule exI [of _ c4], rule exI [of _ c6],
           rule exI [of _ c7], rule exI [of _ B1], rule exI [of _ B2])
    apply (intro conjI)
                  apply (fact t1)
                 apply (fact t2')
                apply (fact t3')
               apply (fact t4)
              apply (fact t5')
             apply (fact s4)
            apply (fact f5)
           apply (fact t7')
          apply (fact f7)
         apply (fact alt7)
        apply (fact i7)
       apply (fact t10')
      apply (fact f11)
     apply (fact e')
    apply (fact f13)
    done
qed

lemma fn_trace:
  "Compile_expr ce (FunctionLiteral parameters body) c = Ok c' \<longleftrightarrow>
     (\<exists>c3 wasPop c4 wasReturnValue c5 i6 c6 c7.
        forEach (map (\<lambda>s. Compile_stmt ce s) body) (entered c parameters) = Ok c3
      \<and> isEmitted c3 (copc ce OpPop) = Ok wasPop
      \<and> (if wasPop then changeEmittedTo ce c3 (copc ce OpReturnValue) else Ok c3) = Ok c4
      \<and> isEmitted c4 (copc ce OpReturnValue) = Ok wasReturnValue
      \<and> (if \<not> wasReturnValue then emitOp ce c4 (copc ce OpReturn) [] else Ok c4) = Ok c5
      \<and> leaveScope c5 = Ok (i6, c6)
      \<and> forEach (map (\<lambda>s. \<lambda>c'. loadSymbol ce c' s) (Free (symbols c5))) c6 = Ok c7
      \<and> emitOp ce (snd (addConstant c7 (Function \<lparr>Instructions = i6,
                         LocalCount = DefinitionCount (symbols c5),
                         ParamCount = int (length parameters)\<rparr>)))
            (copc ce OpClosure)
            [int (length (constants_c c7)), int (length (Free (symbols c5)))] = Ok c')"
  by (simp add: andThen_Ok_iff Let_def entered_def addConstant_def)

lemma wfc_entered [simp]: "wfc c \<Longrightarrow> wfc (entered c ps)"
  by (simp add: entered_def enterScope_def wfc_def)

lemma entered_simps [simp]:
  "ins (entered c ps) = []" "butlast (scopes (entered c ps)) = scopes c"
  "constants_c (entered c ps) = constants_c c"
  by (simp_all add: entered_def enterScope_def ins_def emptyScope_def)

lemma changeEmittedTo_last:
  assumes "wfc c" and "inj (copc ce)" and "ins c \<noteq> []"
    and "Position (em c) = int (length (ins c)) - 1"
  shows "changeEmittedTo ce c (copc ce OpReturnValue) =
     Ok (updLast c \<lparr>instructions = butlast (ins c) @ [copc ce OpReturnValue],
                     emitted = \<lparr>Opcode = copc ce OpReturnValue, Position = Position (em c)\<rparr>,
                     prevEmitted = pe c\<rparr>)"
proof -
  have ni: "NewInstruction (copc ce) (copc ce OpReturnValue) [] = Ok [copc ce OpReturnValue]"
    using assms(2) by (simp add: NewInstruction_eq fits_def encode_no_operands)
  have n: "nat (int (length (ins c)) - 1) = length (ins c) - 1" by (rule nat_int_pred)
  have ow: "overwrite (ins c) (Position (em c)) [copc ce OpReturnValue] =
      Ok (butlast (ins c) @ [copc ce OpReturnValue])"
    using assms(3,4) by (subst overwrite_eq) (simp add: n butlast_conv_take)
  have ci: "changeInstruction c (Position (em c)) [copc ce OpReturnValue] =
      Ok (withIns c (butlast (ins c) @ [copc ce OpReturnValue]))"
    by (simp only: changeInstruction_eq [OF assms(1)] ow andThen_simps)
  have pos: "Position (emitted (last (scopes c))) = Position (em c)" by (simp add: em_def)
  have sc: "scopeAt (withIns c new) = Ok ((last (scopes c))\<lparr>instructions := new\<rparr>)" for new
    using scopeAt_wfc [OF wfc_withIns [OF assms(1)], of new] by (simp add: withIns_def updLast_def)
  have ss: "setScope (withIns c new) s = updLast c s" for new s
    using assms(1) by (simp add: setScope_wfc) (simp add: withIns_def updLast_def)
  have fin: "(last (scopes c))\<lparr>instructions := new,
        emitted := (emitted (last (scopes c)))\<lparr>Opcode := code\<rparr>\<rparr> =
      \<lparr>instructions = new, emitted = \<lparr>Opcode = code, Position = Position (em c)\<rparr>,
       prevEmitted = pe c\<rparr>" for new code
    by (cases "last (scopes c)"; cases "emitted (last (scopes c))") (simp add: em_def pe_def)
  show ?thesis
    by (simp add: changeEmittedTo_def scopeAt_wfc assms(1) ni pos ci sc ss fin)
qed

lemma last_at_end:
  assumes "lastAt ce c n" and "Opcode (em c) = copc ce OpReturnValue"
  shows "last (ins c) = copc ce OpReturnValue"
proof -
  have p: "Position (em c) = int (length (ins c)) - 1" using assms by (simp add: lastAt_def)
  have q: "ins c ! nat (Position (em c)) = Opcode (em c)" using assms(1) by (simp add: lastAt_def)
  have "Position (em c) < int (length (ins c))" "0 \<le> Position (em c)"
    using assms(1) by (simp_all add: lastAt_def)
  then have ne: "ins c \<noteq> []" by auto
  have "last (ins c) = ins c ! (length (ins c) - 1)" using ne by (rule last_conv_nth)
  also have "\<dots> = ins c ! nat (Position (em c))" by (simp only: p nat_int_pred)
  finally show ?thesis using q assms(2) by simp
qed

lemma leaveScope_OkD:
  assumes "wfc c" and "leaveScope c = Ok (i, c')"
  shows "i = ins c \<and> scopes c' = butlast (scopes c) \<and> currentScope c' = currentScope c - 1
       \<and> constants_c c' = constants_c c"
  using assms
  by (auto simp add: leaveScope_def currentInstructions_eq split: option.splits)

lemma fn_layout:
  assumes inj: "inj (copc ce)" and w: "wfc c"
    and S: "\<forall>s\<in>set body. Sok ce s"
    and run: "Compile_expr ce (FunctionLiteral parameters body) c = Ok c'"
  shows "\<exists>c3 c5 c6 c7 F.
      forEach (map (\<lambda>s. Compile_stmt ce s) body) (entered c parameters) = Ok c3
    \<and> F = (if ins c3 \<noteq> [] \<and> Opcode (em c3) = copc ce OpPop
           then butlast (ins c3) @ [copc ce OpReturnValue]
           else if ins c3 \<noteq> [] \<and> Opcode (em c3) = copc ce OpReturnValue then ins c3
           else ins c3 @ [copc ce OpReturn])
    \<and> F \<noteq> [] \<and> (last F = copc ce OpReturnValue \<or> last F = copc ce OpReturn)
    \<and> ins c5 = F \<and> symbols c5 = symbols c3 \<and> constants_c c5 = constants_c c3
    \<and> leaveScope c5 = Ok (F, c6)
    \<and> forEach (map (\<lambda>s. \<lambda>c'. loadSymbol ce c' s) (Free (symbols c3))) c6 = Ok c7
    \<and> constants_c c7 = constants_c c3
    \<and> c' = afterEmit ce
             (c7\<lparr>constants_c := constants_c c7 @
                   [Function \<lparr>Instructions = F, LocalCount = DefinitionCount (symbols c3),
                              ParamCount = int (length parameters)\<rparr>]\<rparr>)
             OpClosure [int (length (constants_c c7)), int (length (Free (symbols c3)))]
    \<and> extends c c' \<and> lastAt ce c' (int (length (ins c)))"
proof -
  from run [unfolded fn_trace] obtain c3 wasPop c4 wasReturnValue c5 i6 c6 c7 where
    t1: "forEach (map (\<lambda>s. Compile_stmt ce s) body) (entered c parameters) = Ok c3"
    and t2: "isEmitted c3 (copc ce OpPop) = Ok wasPop"
    and t3: "(if wasPop then changeEmittedTo ce c3 (copc ce OpReturnValue) else Ok c3) = Ok c4"
    and t4: "isEmitted c4 (copc ce OpReturnValue) = Ok wasReturnValue"
    and t5: "(if \<not> wasReturnValue then emitOp ce c4 (copc ce OpReturn) [] else Ok c4) = Ok c5"
    and t6: "leaveScope c5 = Ok (i6, c6)"
    and t7: "forEach (map (\<lambda>s. \<lambda>c'. loadSymbol ce c' s) (Free (symbols c5))) c6 = Ok c7"
    and t8: "emitOp ce (snd (addConstant c7 (Function \<lparr>Instructions = i6,
                         LocalCount = DefinitionCount (symbols c5),
                         ParamCount = int (length parameters)\<rparr>)))
            (copc ce OpClosure)
            [int (length (constants_c c7)), int (length (Free (symbols c5)))] = Ok c'"
    by blast
  have w2: "wfc (entered c parameters)" using w by simp
  have e23: "extends (entered c parameters) c3"
    using stmts_ok [OF S w2 t1] by simp
  have k3: "if body = [] then c3 = entered c parameters
             else lastAt ce c3 0 \<and> prevAt ce c3 0"
    using stmts_ok [OF S w2 t1] by (cases "body = []") simp_all
  have w3: "wfc c3" using e23 by (rule extends_wfc)
  have b3: "butlast (scopes c3) = scopes c" using e23 by (simp add: extends_def)
  have l3: "ins c3 \<noteq> [] \<Longrightarrow> lastAt ce c3 0"
    using k3 by (cases "body = []") simp_all
  have wp: "wasPop = (ins c3 \<noteq> [] \<and> Opcode (em c3) = copc ce OpPop)"
    using t2 w3 by (simp add: isEmitted_eq)
  define F where "F = (if ins c3 \<noteq> [] \<and> Opcode (em c3) = copc ce OpPop
           then butlast (ins c3) @ [copc ce OpReturnValue]
           else if ins c3 \<noteq> [] \<and> Opcode (em c3) = copc ce OpReturnValue then ins c3
           else ins c3 @ [copc ce OpReturn])"
  have neq: "copc ce OpPop \<noteq> copc ce OpReturnValue" using inj by (simp add: inj_eq)
  have five: "wfc c5 \<and> ins c5 = F \<and> butlast (scopes c5) = scopes c \<and> symbols c5 = symbols c3
      \<and> constants_c c5 = constants_c c3
      \<and> F \<noteq> [] \<and> (last F = copc ce OpReturnValue \<or> last F = copc ce OpReturn)"
  proof (cases wasPop)
    case True
    then have ne: "ins c3 \<noteq> []" and op: "Opcode (em c3) = copc ce OpPop" using wp by simp_all
    have pos: "Position (em c3) = int (length (ins c3)) - 1"
      using l3 [OF ne] op by (simp add: lastAt_def)
    have c4: "c4 = updLast c3 \<lparr>instructions = butlast (ins c3) @ [copc ce OpReturnValue],
                     emitted = \<lparr>Opcode = copc ce OpReturnValue, Position = Position (em c3)\<rparr>,
                     prevEmitted = pe c3\<rparr>"
      using t3 True changeEmittedTo_last [OF w3 inj ne pos] by simp
    have w4: "wfc c4" using w3 by (simp add: c4)
    have "wasReturnValue" using t4 w4 by (simp add: isEmitted_eq) (simp add: c4)
    then have "c5 = c4" using t5 by simp
    then show ?thesis using w4 b3 ne op by (simp add: c4 F_def)
  next
    case False
    then have c4: "c4 = c3" using t3 by simp
    have wr: "wasReturnValue = (ins c3 \<noteq> [] \<and> Opcode (em c3) = copc ce OpReturnValue)"
      using t4 w3 by (simp add: isEmitted_eq c4)
    show ?thesis
    proof (cases wasReturnValue)
      case True
      then have ne: "ins c3 \<noteq> []" and op: "Opcode (em c3) = copc ce OpReturnValue"
        using wr by simp_all
      have "c5 = c3" using t5 True c4 by simp
      moreover have "last (ins c3) = copc ce OpReturnValue"
        using l3 [OF ne] op by (rule last_at_end)
      moreover have "F = ins c3" using ne op neq by (simp add: F_def)
      ultimately show ?thesis using w3 b3 ne by simp
    next
      case nr: False
      then have c5: "c5 = afterEmit ce c3 OpReturn []"
        using t5 c4 w3 inj by (simp add: emitOp_OkD)
      have "F = ins c3 @ [copc ce OpReturn]" using nr wr False wp by (auto simp add: F_def)
      then show ?thesis using w3 b3 by (simp add: c5 encode_no_operands)
    qed
  qed
  then have w5: "wfc c5" and i5: "ins c5 = F" and b5: "butlast (scopes c5) = scopes c"
    and s5: "symbols c5 = symbols c3" and k5: "constants_c c5 = constants_c c3"
    and Fne: "F \<noteq> []" and Flast: "last F = copc ce OpReturnValue \<or> last F = copc ce OpReturn"
    by simp_all
  from leaveScope_OkD [OF w5 t6]
  have i6: "i6 = F" and sc6: "scopes c6 = scopes c" and cs6: "currentScope c6 = currentScope c5 - 1"
    and k6: "constants_c c6 = constants_c c3"
    by (simp_all add: i5 b5 k5)
  have "scopes c5 \<noteq> []" using w5 by (simp add: wfc_def)
  then have "length (scopes c5) = length (butlast (scopes c5)) + 1" by simp
  then have "length (scopes c5) = length (scopes c) + 1" by (simp only: b5)
  then have w6: "wfc c6" using w w5 by (simp add: wfc_def sc6 cs6)
  have i6c: "ins c6 = ins c" by (simp add: ins_def sc6)
  from loads_ok [OF inj w6 t7]
  have e67: "extends c6 c7" and k7: "constants_c c7 = constants_c c3" by (simp_all add: k6)
  have w7: "wfc c7" using e67 by (rule extends_wfc)
  define c8 where "c8 = c7\<lparr>constants_c := constants_c c7 @
                   [Function \<lparr>Instructions = F, LocalCount = DefinitionCount (symbols c3),
                              ParamCount = int (length parameters)\<rparr>]\<rparr>"
  have a8: "snd (addConstant c7 (Function \<lparr>Instructions = i6,
                         LocalCount = DefinitionCount (symbols c5),
                         ParamCount = int (length parameters)\<rparr>)) = c8"
    by (simp add: addConstant_def c8_def i6 s5)
  have w8: "wfc c8" using w7 by (simp add: c8_def)
  have c': "c' = afterEmit ce c8 OpClosure
                   [int (length (constants_c c7)), int (length (Free (symbols c3)))]"
    using t8 [unfolded a8] w8 inj by (simp add: emitOp_OkD s5)
  have e8: "extends c8 c'" unfolding c' using w8 by (rule extends_afterEmit)
  have "extends c7 c8" using w7 by (simp add: c8_def extends_def)
  then have "extends c6 c'" using e67 e8 by (blast intro: extends_trans)
  then have e': "extends c c'" by (simp add: extends_def sc6 i6c)
  have "lastAt ce c' (int (length (ins c8)))" unfolding c' using inj by (rule lastAt_afterEmit)
  then have l': "lastAt ce c' (int (length (ins c)))"
    by (rule lastAt_mono) (use extends_length [OF e67] in \<open>simp add: c8_def i6c\<close>)
  have t6': "leaveScope c5 = Ok (F, c6)" using t6 i6 by simp
  have t7': "forEach (map (\<lambda>s. \<lambda>c'. loadSymbol ce c' s) (Free (symbols c3))) c6 = Ok c7"
    using t7 s5 by simp
  show ?thesis
    apply (rule exI [of _ c3], rule exI [of _ c5], rule exI [of _ c6], rule exI [of _ c7],
           rule exI [of _ F])
    apply (intro conjI)
                apply (fact t1)
               apply (fact F_def)
              apply (fact Fne)
             apply (fact Flast)
            apply (fact i5)
           apply (fact s5)
          apply (fact k5)
         apply (fact t6')
        apply (fact t7')
       apply (fact k7)
      apply (fact c' [unfolded c8_def])
     apply (fact e')
    apply (fact l')
    done
qed

lemma emitted_expr:
  assumes "inj (copc ce)" and "extends c c1" and "emitOp ce c1 (copc ce name) operands = Ok c'"
  shows "extends c c' \<and> lastAt ce c' (int (length (ins c)))"
proof -
  have w1: "wfc c1" using assms(2) by (rule extends_wfc)
  have c': "c' = afterEmit ce c1 name operands" using assms(3) w1 assms(1) by (rule emitOp_OkD)
  have "extends c1 c'" unfolding c' using w1 by (rule extends_afterEmit)
  then have e: "extends c c'" using assms(2) by (blast intro: extends_trans)
  have "lastAt ce c' (int (length (ins c1)))" unfolding c' using assms(1) by (rule lastAt_afterEmit)
  then have "lastAt ce c' (int (length (ins c)))"
    by (rule lastAt_mono) (use extends_length [OF assms(2)] in simp)
  then show ?thesis using e by simp
qed

lemma emitted_stmt:
  assumes "inj (copc ce)" and "extends c c1" and "lastAt ce c1 (int (length (ins c)))"
    and "emitOp ce c1 (copc ce name) operands = Ok c'"
  shows "extends c c' \<and> lastAt ce c' (int (length (ins c))) \<and> prevAt ce c' (int (length (ins c)))"
proof -
  have w1: "wfc c1" using assms(2) by (rule extends_wfc)
  have c': "c' = afterEmit ce c1 name operands" using assms(4) w1 assms(1) by (rule emitOp_OkD)
  have "prevAt ce c' (int (length (ins c)))" unfolding c' using assms(3) by (rule prevAt_afterEmit)
  then show ?thesis using emitted_expr [OF assms(1,2,4)] by simp
qed

lemma operator_chain:
  assumes "(if operator = ''+'' then emitOp ce c2 (copc ce OpAdd) []
         else if operator = ''-'' then emitOp ce c2 (copc ce OpSub) []
         else if operator = ''*'' then emitOp ce c2 (copc ce OpMul) []
         else if operator = ''/'' then emitOp ce c2 (copc ce OpDiv) []
         else if operator = ''>'' then emitOp ce c2 (copc ce OpGreaterThan) []
         else if operator = ''=='' then emitOp ce c2 (copc ce OpEqual) []
         else if operator = ''!='' then emitOp ce c2 (copc ce OpNotEqual) []
         else Err (Errorf ''unknown operator %s'' [ArgStr operator])) = Ok c'"
  shows "\<exists>name. emitOp ce c2 (copc ce name) [] = Ok c'"
  using assms by (auto split: if_splits)

lemma compile_ok:
  shows "inj (copc ce) \<Longrightarrow> Eok ce e" and "inj (copc ce) \<Longrightarrow> Sok ce s"
proof (induction ce e and ce s rule: Compile_expr_Compile_stmt.induct)
  case (1 ce expression)
  then have E: "Eok ce expression" by blast
  show ?case unfolding Sok_def
  proof (intro allI impI)
    fix c c' assume w: "wfc c" and run: "Compile_stmt ce (ExpressionStatement expression) c = Ok c'"
    from run obtain c1 where 1: "Compile_expr ce expression c = Ok c1"
      and 2: "emitOp ce c1 (copc ce OpPop) [] = Ok c'"
      by (auto elim: andThen_OkE)
    from EokD [OF E w 1] have "extends c c1" "lastAt ce c1 (int (length (ins c)))" by simp_all
    then show "extends c c' \<and> lastAt ce c' (int (length (ins c))) \<and> prevAt ce c' (int (length (ins c)))"
      using emitted_stmt [OF "1.prems" _ _ 2] by blast
  qed
next
  case (2 ce operator left right)
  then have L: "Eok ce left" and R: "Eok ce right" by (cases "operator = ''<''"; blast)+
  show ?case unfolding Eok_def
  proof (intro allI impI)
    fix c c' assume w: "wfc c" and run: "Compile_expr ce (InfixExpression operator left right) c = Ok c'"
    show "extends c c' \<and> lastAt ce c' (int (length (ins c)))"
    proof (cases "operator = ''<''")
      case True
      with run obtain c1 c2 where 1: "Compile_expr ce right c = Ok c1"
        and 2: "Compile_expr ce left c1 = Ok c2"
        and 3: "emitOp ce c2 (copc ce OpGreaterThan) [] = Ok c'"
        by (auto elim!: andThen_OkE)
      have e1: "extends c c1" using EokD [OF R w 1] by simp
      have e2: "extends c1 c2" using EokD [OF L extends_wfc [OF e1] 2] by simp
      have "extends c c2" using e1 e2 by (rule extends_trans)
      then show ?thesis
      using emitted_expr [OF "2.prems" _ 3] by blast
    next
      case False
      with run obtain c1 c2 where 1: "Compile_expr ce left c = Ok c1"
        and 2: "Compile_expr ce right c1 = Ok c2"
        and 3: "(if operator = ''+'' then emitOp ce c2 (copc ce OpAdd) []
         else if operator = ''-'' then emitOp ce c2 (copc ce OpSub) []
         else if operator = ''*'' then emitOp ce c2 (copc ce OpMul) []
         else if operator = ''/'' then emitOp ce c2 (copc ce OpDiv) []
         else if operator = ''>'' then emitOp ce c2 (copc ce OpGreaterThan) []
         else if operator = ''=='' then emitOp ce c2 (copc ce OpEqual) []
         else if operator = ''!='' then emitOp ce c2 (copc ce OpNotEqual) []
         else Err (Errorf ''unknown operator %s'' [ArgStr operator])) = Ok c'"
        by (auto elim!: andThen_OkE)
      from operator_chain [OF 3] obtain name where 4: "emitOp ce c2 (copc ce name) [] = Ok c'" ..
      have e1: "extends c c1" using EokD [OF L w 1] by simp
      have e2: "extends c1 c2" using EokD [OF R extends_wfc [OF e1] 2] by simp
      have "extends c c2" using e1 e2 by (rule extends_trans)
      then show ?thesis
      using emitted_expr [OF "2.prems" _ 4] by blast
    qed
  qed
next
  case (3 ce operator right)
  then have R: "Eok ce right" by blast
  show ?case unfolding Eok_def
  proof (intro allI impI)
    fix c c' assume w: "wfc c" and run: "Compile_expr ce (PrefixExpression operator right) c = Ok c'"
    from run obtain c1 where 1: "Compile_expr ce right c = Ok c1"
      and 2: "(if operator = ''!'' then emitOp ce c1 (copc ce OpBang) []
       else if operator = ''-'' then emitOp ce c1 (copc ce OpMinus) []
       else Err (Errorf ''unknown operator %s'' [ArgStr operator])) = Ok c'"
      by (auto elim!: andThen_OkE)
    from 2 obtain name where 3: "emitOp ce c1 (copc ce name) [] = Ok c'"
      by (auto split: if_splits)
    have "extends c c1" using EokD [OF R w 1] by simp
    then show "extends c c' \<and> lastAt ce c' (int (length (ins c)))"
      using emitted_expr [OF "3.prems" _ 3] by blast
  qed
next
  case (4 ce v)
  show ?case unfolding Eok_def
  proof (intro allI impI)
    fix c c' assume w: "wfc c" and run: "Compile_expr ce (IntegerLiteral v) c = Ok c'"
    let ?c1 = "c\<lparr>constants_c := constants_c c @ [Integer v]\<rparr>"
    have 1: "emitOp ce ?c1 (copc ce OpConstant) [int (length (constants_c c))] = Ok c'"
      using run by (simp add: addConstant_def)
    have "extends ?c1 ?c1" using w by (simp add: extends_def)
    from emitted_expr [OF "4.prems" this 1]
    show "extends c c' \<and> lastAt ce c' (int (length (ins c)))" by simp
  qed
next
  case (5 ce v)
  show ?case unfolding Eok_def
  proof (intro allI impI)
    fix c c' assume w: "wfc c" and run: "Compile_expr ce (Boolean_ast v) c = Ok c'"
    from run obtain name where 1: "emitOp ce c (copc ce name) [] = Ok c'"
      by (auto split: if_splits)
    from emitted_expr [OF "5.prems" extends_refl [OF w] 1]
    show "extends c c' \<and> lastAt ce c' (int (length (ins c)))" .
  qed
next
  case (6 ce v)
  show ?case unfolding Eok_def
  proof (intro allI impI)
    fix c c' assume w: "wfc c" and run: "Compile_expr ce (StringLiteral v) c = Ok c'"
    let ?c1 = "c\<lparr>constants_c := constants_c c @ [String v]\<rparr>"
    have 1: "emitOp ce ?c1 (copc ce OpConstant) [int (length (constants_c c))] = Ok c'"
      using run by (simp add: addConstant_def)
    have "extends ?c1 ?c1" using w by (simp add: extends_def)
    from emitted_expr [OF "6.prems" this 1]
    show "extends c c' \<and> lastAt ce c' (int (length (ins c)))" by simp
  qed
next
  case (7 ce elements)
  then have E: "\<forall>x\<in>set elements. Eok ce x" by blast
  show ?case unfolding Eok_def
  proof (intro allI impI)
    fix c c' assume w: "wfc c" and run: "Compile_expr ce (ArrayLiteral elements) c = Ok c'"
    from run obtain c1 where 1: "forEach (map (\<lambda>x. Compile_expr ce x) elements) c = Ok c1"
      and 2: "emitOp ce c1 (copc ce OpArray) [int (length elements)] = Ok c'"
      by (auto elim!: andThen_OkE)
    have "extends c c1" using E w 1 by (rule exprs_ok)
    then show "extends c c' \<and> lastAt ce c' (int (length (ins c)))"
      using emitted_expr [OF "7.prems" _ 2] by blast
  qed
next
  case (8 ce pairs)
  have E: "\<forall>(k, v)\<in>set (sortKeys ce pairs). Eok ce k \<and> Eok ce v"
  proof (clarify, intro conjI)
    fix k v assume "(k, v) \<in> set (sortKeys ce pairs)"
    then show "Eok ce k" "Eok ce v" using "8.IH" "8.prems" by blast+
  qed
  show ?case unfolding Eok_def
  proof (intro allI impI)
    fix c c' assume w: "wfc c" and run: "Compile_expr ce (HashLiteral pairs) c = Ok c'"
    from run obtain c1 where
      1: "forEach (map (\<lambda>(k, v). \<lambda>c'. andThen (Compile_expr ce k c')
                         (\<lambda>c''. Compile_expr ce v c'')) (sortKeys ce pairs)) c = Ok c1"
      and 2: "emitOp ce c1 (copc ce OpHash) [int (length pairs) * 2] = Ok c'"
      by (auto elim!: andThen_OkE)
    have "extends c c1" using E w 1 by (rule pairs_ok)
    then show "extends c c' \<and> lastAt ce c' (int (length (ins c)))"
      using emitted_expr [OF "8.prems" _ 2] by blast
  qed
next
  case (9 ce left index)
  then have L: "Eok ce left" and R: "Eok ce index" by blast+
  show ?case unfolding Eok_def
  proof (intro allI impI)
    fix c c' assume w: "wfc c" and run: "Compile_expr ce (IndexExpression left index) c = Ok c'"
    from run obtain c1 c2 where 1: "Compile_expr ce left c = Ok c1"
      and 2: "Compile_expr ce index c1 = Ok c2"
      and 3: "emitOp ce c2 (copc ce OpIndex) [] = Ok c'"
      by (auto elim!: andThen_OkE)
    have e1: "extends c c1" using EokD [OF L w 1] by simp
    have e2: "extends c1 c2" using EokD [OF R extends_wfc [OF e1] 2] by simp
    have "extends c c2" using e1 e2 by (rule extends_trans)
    then show "extends c c' \<and> lastAt ce c' (int (length (ins c)))"
      using emitted_expr [OF "9.prems" _ 3] by blast
  qed
next
  case (10 ce condition consequent alternate)
  then have E: "Eok ce condition" and S1: "\<forall>s\<in>set consequent. Sok ce s"
    and S2: "\<forall>a. alternate = Some a \<longrightarrow> (\<forall>s\<in>set a. Sok ce s)"
    by blast+
  show ?case unfolding Eok_def
  proof (intro allI impI)
    fix c c' assume w: "wfc c"
      and run: "Compile_expr ce (IfExpression condition consequent alternate) c = Ok c'"
    from if_layout [OF "10.prems" w E S1 S2 run]
    show "extends c c' \<and> lastAt ce c' (int (length (ins c)))" by blast
  qed
next
  case (11 ce name val)
  then have E: "Eok ce val" by (metis surj_pair)
  show ?case unfolding Sok_def
  proof (intro allI impI)
    fix c c' assume w: "wfc c" and run: "Compile_stmt ce (LetStatement name val) c = Ok c'"
    obtain symbol t where d: "Define (symbols c) name = (symbol, t)" by (cases "Define (symbols c) name")
    from run d obtain c1 where 1: "Compile_expr ce val (c\<lparr>symbols := t\<rparr>) = Ok c1"
      and 2: "(if SScope symbol = GlobalScope
           then emitOp ce c1 (copc ce OpSetGlobal) [SIndex symbol]
           else emitOp ce c1 (copc ce OpSetLocal) [SIndex symbol]) = Ok c'"
      by (auto elim!: andThen_OkE)
    from 2 obtain nm where 3: "emitOp ce c1 (copc ce nm) [SIndex symbol] = Ok c'"
      by (auto split: if_splits)
    have w0: "wfc (c\<lparr>symbols := t\<rparr>)" using w by simp
    from EokD [OF E w0 1] have "extends c c1" "lastAt ce c1 (int (length (ins c)))" by simp_all
    then show "extends c c' \<and> lastAt ce c' (int (length (ins c))) \<and> prevAt ce c' (int (length (ins c)))"
      using emitted_stmt [OF "11.prems" _ _ 3] by blast
  qed
next
  case (12 ce name)
  show ?case unfolding Eok_def
  proof (intro allI impI)
    fix c c' assume w: "wfc c" and run: "Compile_expr ce (Identifier name) c = Ok c'"
    obtain r t where d: "Resolve (symbols c) name = (r, t)" by (cases "Resolve (symbols c) name")
    from run d obtain symbol where 1: "loadSymbol ce (c\<lparr>symbols := t\<rparr>) symbol = Ok c'"
      by (cases r) auto
    have w0: "wfc (c\<lparr>symbols := t\<rparr>)" using w by simp
    from loadSymbol_afterEmit [OF w0 "12.prems" 1]
    obtain nm operands where c': "c' = afterEmit ce (c\<lparr>symbols := t\<rparr>) nm operands" by blast
    have "extends (c\<lparr>symbols := t\<rparr>) c'" unfolding c' using w0 by (rule extends_afterEmit)
    moreover have "lastAt ce c' (int (length (ins (c\<lparr>symbols := t\<rparr>))))"
      unfolding c' using "12.prems" by (rule lastAt_afterEmit)
    ultimately show "extends c c' \<and> lastAt ce c' (int (length (ins c)))" by simp
  qed
next
  case (13 ce parameters body)
  then have S: "\<forall>s\<in>set body. Sok ce s" by blast
  show ?case unfolding Eok_def
  proof (intro allI impI)
    fix c c' assume w: "wfc c"
      and run: "Compile_expr ce (FunctionLiteral parameters body) c = Ok c'"
    from fn_layout [OF "13.prems" w S run]
    show "extends c c' \<and> lastAt ce c' (int (length (ins c)))" by blast
  qed
next
  case (14 ce returnValue)
  then have E: "Eok ce returnValue" by blast
  show ?case unfolding Sok_def
  proof (intro allI impI)
    fix c c' assume w: "wfc c" and run: "Compile_stmt ce (ReturnStatement returnValue) c = Ok c'"
    from run obtain c1 where 1: "Compile_expr ce returnValue c = Ok c1"
      and 2: "emitOp ce c1 (copc ce OpReturnValue) [] = Ok c'"
      by (auto elim: andThen_OkE)
    from EokD [OF E w 1] have "extends c c1" "lastAt ce c1 (int (length (ins c)))" by simp_all
    then show "extends c c' \<and> lastAt ce c' (int (length (ins c))) \<and> prevAt ce c' (int (length (ins c)))"
      using emitted_stmt [OF "14.prems" _ _ 2] by blast
  qed
next
  case (15 ce fnc arguments)
  then have F: "Eok ce fnc" and A: "\<forall>x\<in>set arguments. Eok ce x" by blast+
  show ?case unfolding Eok_def
  proof (intro allI impI)
    fix c c' assume w: "wfc c" and run: "Compile_expr ce (CallExpression fnc arguments) c = Ok c'"
    from run obtain c1 c2 where 1: "Compile_expr ce fnc c = Ok c1"
      and 2: "forEach (map (\<lambda>x. Compile_expr ce x) arguments) c1 = Ok c2"
      and 3: "emitOp ce c2 (copc ce OpCall) [int (length arguments)] = Ok c'"
      by (auto elim!: andThen_OkE)
    have e1: "extends c c1" using EokD [OF F w 1] by simp
    have e2: "extends c1 c2" using A extends_wfc [OF e1] 2 by (rule exprs_ok)
    have "extends c c2" using e1 e2 by (rule extends_trans)
    then show "extends c c' \<and> lastAt ce c' (int (length (ins c)))"
      using emitted_expr [OF "15.prems" _ 3] by blast
  qed
qed

lemma last_at_end_Pop:
  assumes "lastAt ce c n" and "Opcode (em c) = copc ce OpPop"
  shows "last (ins c) = copc ce OpPop"
proof -
  have p: "Position (em c) = int (length (ins c)) - 1" using assms by (simp add: lastAt_def)
  have q: "ins c ! nat (Position (em c)) = Opcode (em c)" using assms(1) by (simp add: lastAt_def)
  have "Position (em c) < int (length (ins c))" "0 \<le> Position (em c)"
    using assms(1) by (simp_all add: lastAt_def)
  then have ne: "ins c \<noteq> []" by auto
  have "last (ins c) = ins c ! (length (ins c) - 1)" using ne by (rule last_conv_nth)
  also have "\<dots> = ins c ! nat (Position (em c))" by (simp only: p nat_int_pred)
  finally show ?thesis using q assms(2) by simp
qed

lemma putUint_2: "putUint 2 v = [word_of_int (v div 256), word_of_int v]"
  by (simp add: putUint_def numeral_2_eq_2)

lemma putUint_1: "putUint 1 v = [word_of_int v]"
  by (simp add: putUint_def)

lemmas compile_eval = freshBytecode_def Compile_def New_compiler_def cenv_iota_def emitOp_def
  emit_def NewInstruction_def all_opcodes_def fits_def putUint_2 putUint_1 addInstruction_def
  setEmitted_def scopeAt_def setScope_def addConstant_def sortKeys_def sort_key_def
  Bytecode_of_def currentInstructions_def emptyScope_def New_symbols_def

lemma inj_cenv_iota: "inj (copc cenv_iota)"
  by (simp add: cenv_iota_def inj_iota)

lemma wfc_New_compiler: "wfc (New_compiler ce)"
  by (simp add: wfc_def New_compiler_def)

lemma if_example_compiles:
  "Compile_expr cenv_iota
     (IfExpression (Boolean_ast True) [ExpressionStatement (IntegerLiteral 10)] None)
     (New_compiler cenv_iota) = Ok if_example_result"
  by code_simp

lemma fn_example_compiles:
  "Compile_expr cenv_iota
     (FunctionLiteral [''a'']
        [ExpressionStatement (InfixExpression ''+'' (Identifier ''a'') (IntegerLiteral 1))])
     (New_compiler cenv_iota) = Ok fn_example_result"
  by code_simp

subsection \<open>The claims about the compiler\<close>

text \<open>
  Claim C4. A successful compilation of an if expression, from a compiler whose current
  scope is the last one, runs through these states: the condition is compiled (\<open>c1\<close>);
  \<^verbatim>\<open>JumpNotTruthy 9999\<close> is emitted at the end of its instructions (\<open>c2\<close>); the
  consequent is compiled (\<open>c3\<close>); a \<^verbatim>\<open>Pop\<close> emitted last is removed (\<open>c4\<close>, whose
  instructions are those of \<open>c1\<close>, the jump and the code \<open>B1\<close> of the consequent);
  \<^verbatim>\<open>Jump 9999\<close> is emitted (\<open>c5\<close>); the operand of the \<^verbatim>\<open>JumpNotTruthy\<close> is
  patched to the position just past that \<^verbatim>\<open>Jump\<close> (\<open>c6\<close>); without alternate
  \<^verbatim>\<open>Null\<close> is emitted, otherwise the alternate is compiled and a \<^verbatim>\<open>Pop\<close> emitted last
  is removed (\<open>c7\<close>, which adds the code \<open>B2\<close>); the operand of the \<^verbatim>\<open>Jump\<close> is
  patched to the length of the instructions. The result is the code of the condition,
  \<^verbatim>\<open>JumpNotTruthy\<close> to just past the \<^verbatim>\<open>Jump\<close>, \<open>B1\<close>, \<^verbatim>\<open>Jump\<close> to the end, \<open>B2\<close>.
\<close>

theorem if_expression_layout:
  assumes "inj (copc ce)" and "wfc c"
    and "Compile_expr ce (IfExpression condition consequent alternate) c = Ok c'"
  shows "\<exists>c1 c2 c3 c4 c5 c6 c7 B1 B2.
      Compile_expr ce condition c = Ok c1
    \<and> emit ce c1 (copc ce OpJumpNotTruthy) [9999] = Ok (int (length (ins c1)), c2)
    \<and> forEach (map (\<lambda>s. Compile_stmt ce s) consequent) c2 = Ok c3
    \<and> preventPopIfEmitted ce c3 = Ok c4
    \<and> ins c4 = stripped ce c3
    \<and> ins c4 = ins c1 @ jumpBytes ce OpJumpNotTruthy 9999 @ B1
    \<and> emit ce c4 (copc ce OpJump) [9999] = Ok (int (length (ins c4)), c5)
    \<and> changeOperand ce c5 (int (length (ins c1))) (int (length (ins c4)) + 3) = Ok c6
    \<and> ins c6 = ins c1 @ jumpBytes ce OpJumpNotTruthy (int (length (ins c4)) + 3) @ B1
                 @ jumpBytes ce OpJump 9999
    \<and> (case alternate of
          None \<Rightarrow> emitOp ce c6 (copc ce OpNull) [] = Ok c7 \<and> B2 = [copc ce OpNull]
        | Some a \<Rightarrow> (\<exists>c7'. forEach (map (\<lambda>s. Compile_stmt ce s) a) c6 = Ok c7'
                        \<and> preventPopIfEmitted ce c7' = Ok c7 \<and> ins c7 = stripped ce c7'))
    \<and> ins c7 = ins c6 @ B2
    \<and> changeOperand ce c7 (int (length (ins c4))) (int (length (ins c7))) = Ok c'
    \<and> ins c' = ins c1 @ jumpBytes ce OpJumpNotTruthy (int (length (ins c4)) + 3) @ B1
                 @ jumpBytes ce OpJump (int (length (ins c'))) @ B2"
proof -
  have E: "Eok ce condition" using assms(1) by (rule compile_ok)
  have S1: "\<forall>s\<in>set consequent. Sok ce s" using assms(1) by (simp add: compile_ok)
  have S2: "\<forall>a. alternate = Some a \<longrightarrow> (\<forall>s\<in>set a. Sok ce s)"
    using assms(1) by (simp add: compile_ok)
  from if_layout [OF assms(1,2) E S1 S2 assms(3)]
  obtain c1 c3 c4 c6 c7 B1 B2 where
    f1: "Compile_expr ce condition c = Ok c1"
    and f1': "emit ce c1 (copc ce OpJumpNotTruthy) [9999]
        = Ok (int (length (ins c1)), afterEmit ce c1 OpJumpNotTruthy [9999])"
    and f2: "forEach (map (\<lambda>s. Compile_stmt ce s) consequent) (afterEmit ce c1 OpJumpNotTruthy [9999]) = Ok c3"
    and f3: "preventPopIfEmitted ce c3 = Ok c4"
    and f3': "emit ce c4 (copc ce OpJump) [9999]
        = Ok (int (length (ins c4)), afterEmit ce c4 OpJump [9999])"
    and f4: "ins c4 = stripped ce c3"
    and f5: "ins c4 = ins c1 @ jumpBytes ce OpJumpNotTruthy 9999 @ B1"
    and f6: "changeOperand ce (afterEmit ce c4 OpJump [9999]) (int (length (ins c1)))
          (int (length (ins c4)) + 3) = Ok c6"
    and f7: "ins c6 = ins c1 @ jumpBytes ce OpJumpNotTruthy (int (length (ins c4)) + 3) @ B1
                 @ jumpBytes ce OpJump 9999"
    and f8: "case alternate of
          None \<Rightarrow> emitOp ce c6 (copc ce OpNull) [] = Ok c7 \<and> B2 = [copc ce OpNull]
        | Some a \<Rightarrow> (\<exists>c7'. forEach (map (\<lambda>s. Compile_stmt ce s) a) c6 = Ok c7'
                        \<and> preventPopIfEmitted ce c7' = Ok c7 \<and> ins c7 = stripped ce c7')"
    and f9: "ins c7 = ins c6 @ B2"
    and f10: "changeOperand ce c7 (int (length (ins c4))) (int (length (ins c7))) = Ok c'"
    and f11: "ins c' = ins c1 @ jumpBytes ce OpJumpNotTruthy (int (length (ins c4)) + 3) @ B1
                 @ jumpBytes ce OpJump (int (length (ins c'))) @ B2"
    by blast
  show ?thesis
    apply (rule exI [of _ c1], rule exI [of _ "afterEmit ce c1 OpJumpNotTruthy [9999]"],
           rule exI [of _ c3], rule exI [of _ c4],
           rule exI [of _ "afterEmit ce c4 OpJump [9999]"], rule exI [of _ c6],
           rule exI [of _ c7], rule exI [of _ B1], rule exI [of _ B2])
    apply (intro conjI)
                apply (fact f1)
               apply (fact f1')
              apply (fact f2)
             apply (fact f3)
            apply (fact f4)
           apply (fact f5)
          apply (fact f3')
         apply (fact f6)
        apply (fact f7)
       apply (fact f8)
      apply (fact f9)
     apply (fact f10)
    apply (fact f11)
    done
qed

text \<open>
  The theorem on \<^verbatim>\<open>if (true) { 10 }\<close>: \<^verbatim>\<open>True; JumpNotTruthy 10; Constant 0; Jump 11; Null\<close>.
\<close>

theorem if_expression_layout_witness:
  "inj (copc cenv_iota) \<and> wfc (New_compiler cenv_iota)
   \<and> Compile_expr cenv_iota
        (IfExpression (Boolean_ast True) [ExpressionStatement (IntegerLiteral 10)] None)
        (New_compiler cenv_iota) = Ok if_example_result
   \<and> ins if_example_result =
        [iota OpTrue] @ jumpBytes cenv_iota OpJumpNotTruthy 10 @ [iota OpConstant, 0, 0]
        @ jumpBytes cenv_iota OpJump 11 @ [iota OpNull]"
proof -
  have h1: "inj (copc cenv_iota)" by (rule inj_cenv_iota)
  have h2: "wfc (New_compiler cenv_iota)" by (rule wfc_New_compiler)
  have h3: "Compile_expr cenv_iota
        (IfExpression (Boolean_ast True) [ExpressionStatement (IntegerLiteral 10)] None)
        (New_compiler cenv_iota) = Ok if_example_result"
    by (rule if_example_compiles)
  have h4: "ins if_example_result =
        [iota OpTrue] @ jumpBytes cenv_iota OpJumpNotTruthy 10 @ [iota OpConstant, 0, 0]
        @ jumpBytes cenv_iota OpJump 11 @ [iota OpNull]"
    by (simp add: ins_def if_example_result_def jumpBytes_def putUint_2 cenv_iota_def)
  note layout = if_expression_layout [OF h1 h2 h3]
  show ?thesis
    using layout h1 h2 h3 h4
    apply -
    apply (intro conjI)
       apply assumption+
    done
qed

text \<open>
  Claim C5. A successful compilation of a function literal, from a compiler whose
  current scope is the last one, compiles the body in the entered scope (\<open>c3\<close>) and
  adds to the constants a function whose instructions \<open>F\<close> are: when the last emitted
  instruction of the body is a \<^verbatim>\<open>Pop\<close>, the instructions of the body with that last byte,
  the \<^verbatim>\<open>Pop\<close>, replaced in place by \<^verbatim>\<open>ReturnValue\<close>; else, when it is a
  \<^verbatim>\<open>ReturnValue\<close>, the instructions of the body; else the instructions of the body
  followed by \<^verbatim>\<open>Return\<close>. For an empty body \<open>F\<close> is the single \<^verbatim>\<open>Return\<close>. In every
  case \<open>F\<close> ends in \<^verbatim>\<open>ReturnValue\<close> or \<^verbatim>\<open>Return\<close>.
\<close>

theorem function_literal_return:
  assumes "inj (copc ce)" and "wfc c"
    and "Compile_expr ce (FunctionLiteral parameters body) c = Ok c'"
  shows "\<exists>c3 F.
      forEach (map (\<lambda>s. Compile_stmt ce s) body) (entered c parameters) = Ok c3
    \<and> F = (if isEmitted c3 (copc ce OpPop) = Ok True
           then butlast (ins c3) @ [copc ce OpReturnValue]
           else if isEmitted c3 (copc ce OpReturnValue) = Ok True then ins c3
           else ins c3 @ [copc ce OpReturn])
    \<and> (if isEmitted c3 (copc ce OpPop) = Ok True then last (ins c3) = copc ce OpPop else True)
    \<and> (if body = [] then F = [copc ce OpReturn] else True)
    \<and> F \<noteq> [] \<and> (last F = copc ce OpReturnValue \<or> last F = copc ce OpReturn)
    \<and> constants_c c' = constants_c c3 @
          [Function \<lparr>Instructions = F, LocalCount = DefinitionCount (symbols c3),
                     ParamCount = int (length parameters)\<rparr>]"
proof -
  have S: "\<forall>s\<in>set body. Sok ce s" using assms(1) by (simp add: compile_ok)
  from fn_layout [OF assms(1,2) S assms(3)]
  obtain c3 c7 F where
    f1: "forEach (map (\<lambda>s. Compile_stmt ce s) body) (entered c parameters) = Ok c3"
    and f2: "F = (if ins c3 \<noteq> [] \<and> Opcode (em c3) = copc ce OpPop
           then butlast (ins c3) @ [copc ce OpReturnValue]
           else if ins c3 \<noteq> [] \<and> Opcode (em c3) = copc ce OpReturnValue then ins c3
           else ins c3 @ [copc ce OpReturn])"
    and f3: "F \<noteq> []" and f4: "last F = copc ce OpReturnValue \<or> last F = copc ce OpReturn"
    and f5: "constants_c c7 = constants_c c3"
    and f6: "c' = afterEmit ce
             (c7\<lparr>constants_c := constants_c c7 @
                   [Function \<lparr>Instructions = F, LocalCount = DefinitionCount (symbols c3),
                              ParamCount = int (length parameters)\<rparr>]\<rparr>)
             OpClosure [int (length (constants_c c7)), int (length (Free (symbols c3)))]"
    by blast
  have w2: "wfc (entered c parameters)" using assms(2) by simp
  have e: "extends (entered c parameters) c3" using stmts_ok [OF S w2 f1] by simp
  have k: "if body = [] then c3 = entered c parameters else lastAt ce c3 0"
    using stmts_ok [OF S w2 f1] by (cases "body = []") simp_all
  have w3: "wfc c3" using e by (rule extends_wfc)
  have p: "(isEmitted c3 (copc ce OpPop) = Ok True) = (ins c3 \<noteq> [] \<and> Opcode (em c3) = copc ce OpPop)"
    "(isEmitted c3 (copc ce OpReturnValue) = Ok True)
       = (ins c3 \<noteq> [] \<and> Opcode (em c3) = copc ce OpReturnValue)"
    using w3 by (simp_all add: isEmitted_eq)
  have g2: "F = (if isEmitted c3 (copc ce OpPop) = Ok True
           then butlast (ins c3) @ [copc ce OpReturnValue]
           else if isEmitted c3 (copc ce OpReturnValue) = Ok True then ins c3
           else ins c3 @ [copc ce OpReturn])"
    unfolding p by (fact f2)
  have g3: "if isEmitted c3 (copc ce OpPop) = Ok True then last (ins c3) = copc ce OpPop else True"
  proof (cases "ins c3 \<noteq> [] \<and> Opcode (em c3) = copc ce OpPop")
    case True
    then have "body \<noteq> []" using k by auto
    then have "lastAt ce c3 0" using k by simp
    then have "last (ins c3) = copc ce OpPop" using True by (simp add: last_at_end_Pop)
    then show ?thesis by simp
  next
    case False
    then show ?thesis by (auto simp add: p)
  qed
  have g4: "if body = [] then F = [copc ce OpReturn] else True"
  proof (cases "body = []")
    case True
    then have "ins c3 = []" using k by simp
    then show ?thesis using True f2 by simp
  next
    case False
    then show ?thesis by simp
  qed
  have g5: "constants_c c' = constants_c c3 @
          [Function \<lparr>Instructions = F, LocalCount = DefinitionCount (symbols c3),
                     ParamCount = int (length parameters)\<rparr>]"
    by (simp add: f6 f5)
  show ?thesis
    apply (rule exI [of _ c3], rule exI [of _ F])
    apply (intro conjI)
          apply (fact f1)
         apply (fact g2)
        apply (fact g3)
       apply (fact g4)
      apply (fact f3)
     apply (fact f4)
    apply (fact g5)
    done
qed

text \<open>
  The theorem on \<^verbatim>\<open>fn(a) { a + 1 }\<close>: the body
  \<^verbatim>\<open>GetLocal 0; Constant 0; Add; Pop\<close> becomes \<^verbatim>\<open>GetLocal 0; Constant 0; Add; ReturnValue\<close>.
\<close>

theorem function_literal_return_witness:
  "inj (copc cenv_iota) \<and> wfc (New_compiler cenv_iota)
   \<and> Compile_expr cenv_iota
        (FunctionLiteral [''a'']
           [ExpressionStatement (InfixExpression ''+'' (Identifier ''a'') (IntegerLiteral 1))])
        (New_compiler cenv_iota) = Ok fn_example_result
   \<and> constants_c fn_example_result =
        [Integer 1,
         Function \<lparr>Instructions = [iota OpGetLocal, 0, iota OpConstant, 0, 0, iota OpAdd,
                                   iota OpReturnValue],
                   LocalCount = 1, ParamCount = 1\<rparr>]"
proof -
  have h1: "inj (copc cenv_iota)" by (rule inj_cenv_iota)
  have h2: "wfc (New_compiler cenv_iota)" by (rule wfc_New_compiler)
  have h3: "Compile_expr cenv_iota
        (FunctionLiteral [''a'']
           [ExpressionStatement (InfixExpression ''+'' (Identifier ''a'') (IntegerLiteral 1))])
        (New_compiler cenv_iota) = Ok fn_example_result"
    by (rule fn_example_compiles)
  have h4: "constants_c fn_example_result =
        [Integer 1,
         Function \<lparr>Instructions = [iota OpGetLocal, 0, iota OpConstant, 0, 0, iota OpAdd,
                                   iota OpReturnValue],
                   LocalCount = 1, ParamCount = 1\<rparr>]"
    by (simp add: fn_example_result_def)
  note ret = function_literal_return [OF h1 h2 h3]
  show ?thesis
    using ret h1 h2 h3 h4
    apply -
    apply (intro conjI)
       apply assumption+
    done
qed

text \<open>
  Claim C6 fails on the code. The hash literal \<^verbatim>\<open>{1: true, 1: false}\<close> has two key
  nodes with the same text, whatever \<^verbatim>\<open>String()\<close> is. The sort leaves them in the order
  in which the \<^verbatim>\<open>range\<close> over the map came, so the two orders of the same map compile,
  each on a fresh compiler, to different instructions.
\<close>

theorem hash_keys_with_equal_text:
  "freshBytecode (cenv_iota\<lparr>nodeString := r\<rparr>)
     [ExpressionStatement (HashLiteral [(IntegerLiteral 1, Boolean_ast True),
                                        (IntegerLiteral 1, Boolean_ast False)])]
     = Ok \<lparr>bInstructions = [iota OpConstant, 0, 0, iota OpTrue, iota OpConstant, 0, 1,
                              iota OpFalse, iota OpHash, 0, 4, iota OpPop],
            bConstants = [Integer 1, Integer 1]\<rparr>
   \<and> freshBytecode (cenv_iota\<lparr>nodeString := r\<rparr>)
     [ExpressionStatement (HashLiteral [(IntegerLiteral 1, Boolean_ast False),
                                        (IntegerLiteral 1, Boolean_ast True)])]
     = Ok \<lparr>bInstructions = [iota OpConstant, 0, 0, iota OpFalse, iota OpConstant, 0, 1,
                              iota OpTrue, iota OpHash, 0, 4, iota OpPop],
            bConstants = [Integer 1, Integer 1]\<rparr>"
  by (simp add: compile_eval)

end
